theory Spec2Isabelle
  imports Main "HOL-Library.Word"
begin

unbundle bit_operations_syntax

section \<open>Attribute value framework (lib/Libattr)\<close>

subsection \<open>Attribute cells\<close>

text \<open>
  Modelled from the spec: \<^verbatim>\<open>enum batch_op\<close> is declared in \<^verbatim>\<open>pbs_ifl.h\<close>, which
  is not among the sources.  The enumerators are those the attribute functions
  switch on (\<^verbatim>\<open>SET\<close>, \<^verbatim>\<open>INCR\<close>, \<^verbatim>\<open>DECR\<close>) together with the other operators
  of the batch interface ("any other operator"), all of which reach the
  \<^verbatim>\<open>default\<close> label of every switch below.
\<close>

datatype batch_op = SET | UNSET | INCR | DECR | EQ | NE | GE | GT | LE | LT | DFLT

text \<open>
  Modelled from the spec: the flag bits are macros of \<^verbatim>\<open>attribute.h\<close>, which is not
  among the sources.  The flags hold an "is set" marker, a "modified" marker and
  a "needs cache refresh" marker, each one bit, and \<^verbatim>\<open>ATR_SET_MOD_MCACHE\<close> is the
  three together.  Nothing below depends on which bit is which.
\<close>

definition ATR_VFLAG_SET :: "16 word" where "ATR_VFLAG_SET = 0x01"
definition ATR_VFLAG_MODIFY :: "16 word" where "ATR_VFLAG_MODIFY = 0x02"
definition ATR_VFLAG_MODCACHE :: "16 word" where "ATR_VFLAG_MODCACHE = 0x08"
definition ATR_SET_MOD_MCACHE :: "16 word" where
  "ATR_SET_MOD_MCACHE = ATR_VFLAG_SET OR ATR_VFLAG_MODIFY OR ATR_VFLAG_MODCACHE"

text \<open>
  An attribute cell: the flags and the members of the value union that the functions
  below read and write.  Each function touches one member only, so the members
  are kept as separate fields.  \<^verbatim>\<open>at_str\<close> is a pointer to a NUL-terminated string:
  \<open>None\<close> is the null pointer, \<open>Some s\<close> a string whose characters before the
  terminator are \<open>s\<close>.
\<close>

record attribute =
  at_flags :: "16 word"
  at_char :: "8 word"
  at_short :: "16 word"
  at_str :: "string option"

subsection \<open>Character and short setters (attr_fn_c.c)\<close>

text \<open>
  \<^verbatim>\<open>set_attr_c(pattr, value, op)\<close> and \<^verbatim>\<open>set_attr_short(pattr, value, op)\<close> return
  \<^verbatim>\<open>void\<close>; the model returns the cell after the call and the messages passed to
  \<^verbatim>\<open>log_err\<close>.  A null \<^verbatim>\<open>pattr\<close> is \<open>None\<close>.
\<close>

definition set_attr_c ::
  "attribute option \<Rightarrow> 8 word \<Rightarrow> batch_op \<Rightarrow> attribute option \<times> string list" where
  "set_attr_c pattr val op =
     (case pattr of
        None \<Rightarrow> (None, [''Invalid pointer to attribute''])
      | Some a \<Rightarrow>
          (case op of
             SET \<Rightarrow> (Some (a\<lparr>at_char := val, at_flags := at_flags a OR ATR_SET_MOD_MCACHE\<rparr>), [])
           | INCR \<Rightarrow> (Some (a\<lparr>at_char := at_char a + val,
                                 at_flags := at_flags a OR ATR_SET_MOD_MCACHE\<rparr>), [])
           | DECR \<Rightarrow> (Some (a\<lparr>at_char := at_char a - val,
                                 at_flags := at_flags a OR ATR_SET_MOD_MCACHE\<rparr>), [])
           | _ \<Rightarrow> (Some a, [])))"

definition set_attr_short ::
  "attribute option \<Rightarrow> 16 word \<Rightarrow> batch_op \<Rightarrow> attribute option \<times> string list" where
  "set_attr_short pattr val op =
     (case pattr of
        None \<Rightarrow> (None, [''Invalid pointer to attribute''])
      | Some a \<Rightarrow>
          (case op of
             SET \<Rightarrow> (Some (a\<lparr>at_short := val, at_flags := at_flags a OR ATR_SET_MOD_MCACHE\<rparr>), [])
           | INCR \<Rightarrow> (Some (a\<lparr>at_short := at_short a + val,
                                 at_flags := at_flags a OR ATR_SET_MOD_MCACHE\<rparr>), [])
           | DECR \<Rightarrow> (Some (a\<lparr>at_short := at_short a - val,
                                 at_flags := at_flags a OR ATR_SET_MOD_MCACHE\<rparr>), [])
           | _ \<Rightarrow> (Some a, [])))"

subsection \<open>String setter (attr_fn_str.c)\<close>

text \<open>
  Modelled from the spec: the error numbers are macros of \<^verbatim>\<open>pbs_error.h\<close>, which
  is not among the sources.  \<^verbatim>\<open>PBSE_NONE\<close> is zero and the error codes are
  positive and pairwise different; nothing below depends on the numbers
  themselves.
\<close>

definition PBSE_NONE :: int where "PBSE_NONE = 0"
definition PBSE_UNKJOBID :: int where "PBSE_UNKJOBID = 15001"
definition PBSE_IVALREQ :: int where "PBSE_IVALREQ = 15004"
definition PBSE_UNKREQ :: int where "PBSE_UNKREQ = 15005"
definition PBSE_PERM :: int where "PBSE_PERM = 15007"
definition PBSE_SYSTEM :: int where "PBSE_SYSTEM = 15010"
definition PBSE_INTERNAL :: int where "PBSE_INTERNAL = 15011"
definition PBSE_BADSTATE :: int where "PBSE_BADSTATE = 15016"
definition PBSE_PROTOCOL :: int where "PBSE_PROTOCOL = 15031"
definition PBSE_WRONG_RESUME :: int where "PBSE_WRONG_RESUME = 15172"

text \<open>
  \<^verbatim>\<open>strncmp(p, q, n) == 0\<close> on two NUL-terminated strings given by their characters
  before the terminator: the first \<open>n\<close> characters agree, a string that ends
  earlier being compared through its terminator.
\<close>

definition strncmp_eq :: "string \<Rightarrow> string \<Rightarrow> nat \<Rightarrow> bool" where
  "strncmp_eq p q n = (take n p = take n q)"

text \<open>
  The inner loop of the \<^verbatim>\<open>DECR\<close> case,
  \<^verbatim>\<open>do { *p = *(p + nsize); } while (*p++);\<close>
  on the string \<open>s\<close> with \<open>p\<close> an index into it: each round copies the character
  \<open>nsize\<close> places to the right; copying the terminator (the source index is the
  length of \<open>s\<close>) ends the string at \<open>p\<close> and ends the loop.  The result is the
  string and the value of \<open>p\<close> after the last \<^verbatim>\<open>p++\<close>.  The loop is entered only
  after a match at \<open>p\<close>, so \<open>p + nsize\<close> never exceeds the length.
\<close>

function shift_left :: "string \<Rightarrow> nat \<Rightarrow> nat \<Rightarrow> string \<times> nat" where
  "shift_left s p nsize =
     (if p + nsize < length s
      then shift_left (s[p := s ! (p + nsize)]) (Suc p) nsize
      else (take p s, Suc p))"
  by pat_completeness auto
termination
  by (relation "measure (\<lambda>(s, p, nsize). length s - p)") auto

declare shift_left.simps [simp del]

text \<open>
  The outer loop \<^verbatim>\<open>while (p >= attr->at_val.at_str) { ...; p--; }\<close>, with \<open>p\<close> the
  offset of the pointer from the start of the string (negative once the pointer
  has passed the start).  The loop has no exit other than its condition.  With an
  empty \<open>b\<close> it would not end, so the result is an option and \<open>None\<close> stands
  for a loop that never returns; \<^verbatim>\<open>set_str\<close> enters it with a non-empty \<open>b\<close> only.
\<close>

partial_function (option) decr_scan :: "string \<Rightarrow> string \<Rightarrow> int \<Rightarrow> string option" where
  "decr_scan s b p =
     (if p < 0 then Some s
      else if strncmp_eq (drop (nat p) s) b (length b)
      then (case shift_left s (nat p) (length b) of
              (s', p') \<Rightarrow> decr_scan s' b (int p' - 1))
      else decr_scan s b (p - 1))"

declare decr_scan.simps [code]

text \<open>
  \<^verbatim>\<open>set_str(attr, new, op)\<close>.  The result is \<open>None\<close> when the assertion at the head
  of the function fails or the scan does not return, and otherwise the return
  value with the cell \<open>attr\<close> as the call leaves it.  \<open>alloc_ok\<close> says whether
  \<^verbatim>\<open>malloc\<close>/\<^verbatim>\<open>realloc\<close> succeeds.
\<close>

definition set_str ::
  "bool \<Rightarrow> attribute \<Rightarrow> attribute \<Rightarrow> batch_op \<Rightarrow> (int \<times> attribute) option" where
  "set_str alloc_ok attr new op =
     (case at_str new of
        None \<Rightarrow> None
      | Some b \<Rightarrow>
          if at_flags new AND ATR_VFLAG_SET = 0 then None
          else
            let op' = (if op = INCR \<and> at_str attr = None then SET else op);
                fin = (\<lambda>a. Some (0, if at_str a \<noteq> None \<and> at_str a \<noteq> Some []
                                    then a\<lparr>at_flags := at_flags a OR ATR_SET_MOD_MCACHE\<rparr>
                                    else a\<lparr>at_flags := at_flags a AND NOT ATR_VFLAG_SET\<rparr>))
            in (case op' of
                  SET \<Rightarrow>
                    if alloc_ok then fin (attr\<lparr>at_str := Some b\<rparr>)
                    else Some (PBSE_SYSTEM, attr\<lparr>at_str := None\<rparr>)
                | INCR \<Rightarrow>
                    if alloc_ok then fin (attr\<lparr>at_str := Some (the (at_str attr) @ b)\<rparr>)
                    else Some (PBSE_SYSTEM, attr)
                | DECR \<Rightarrow>
                    (case at_str attr of
                       None \<Rightarrow> fin attr
                     | Some a \<Rightarrow>
                         if length b = 0 then fin attr
                         else (case decr_scan a b (int (length a) - int (length b)) of
                                 None \<Rightarrow> None
                               | Some a' \<Rightarrow> fin (attr\<lparr>at_str := Some a'\<rparr>)))
                | _ \<Rightarrow> Some (PBSE_INTERNAL, attr)))"


section \<open>Kerberos/GSS provider: wrap and unwrap (lib/Libutil/pbs_gss.c)\<close>

text \<open>
  Modelled from the spec: the result codes are a private enumeration of
  \<^verbatim>\<open>pbs_gss.h\<close>, which is not among the sources; the four that wrap and unwrap
  return are named here.
\<close>

datatype pbs_gss_rc = PBS_GSS_OK | PBS_GSS_ERR_INTERNAL | PBS_GSS_ERR_WRAP | PBS_GSS_ERR_UNWRAP

type_synonym bytes = "8 word list"

text \<open>
  The fields of \<^verbatim>\<open>pbs_gss_extra_t\<close> that wrap and unwrap use.  \<^verbatim>\<open>cleartext\<close> is a
  pointer to a heap buffer: \<open>None\<close> is the null pointer.
\<close>

record pbs_gss_extra =
  ready :: int
  confidential :: int
  cleartext :: "bytes option"
  cleartext_len :: nat

text \<open>Calls into the GSS library, recorded in the order they are made.\<close>

datatype gss_call = Gss_wrap | Gss_unwrap | Gss_release_buffer

text \<open>
  What the environment answers during one call: whether each \<^verbatim>\<open>malloc\<close> succeeds,
  what \<^verbatim>\<open>gss_wrap\<close> and \<^verbatim>\<open>gss_unwrap\<close> return (completion, and the output buffer)
  for a given input, and whether \<^verbatim>\<open>gss_release_buffer\<close> completes.
\<close>

record gss_env =
  malloc_cleartext :: bool
  malloc_data_out :: bool
  gss_wrap_fn :: "int \<Rightarrow> bytes \<Rightarrow> bool \<times> bytes"
  gss_unwrap_fn :: "bytes \<Rightarrow> bool \<times> bytes"
  gss_release_ok :: bool

text \<open>
  What a call leaves behind: the return value, the context structure, what was
  stored through \<^verbatim>\<open>data_out\<close> and \<^verbatim>\<open>len_out\<close> (\<open>None\<close>: nothing stored; for
  \<^verbatim>\<open>data_out\<close> also a stored null pointer), the message printed into \<^verbatim>\<open>ebuf\<close>, and
  the GSS calls made.
\<close>

record gss_result =
  g_rc :: pbs_gss_rc
  g_extra :: "pbs_gss_extra option"
  g_data_out :: "bytes option"
  g_len_out :: "nat option"
  g_ebuf :: "string option"
  g_calls :: "gss_call list"

definition gss_ret ::
  "pbs_gss_rc \<Rightarrow> pbs_gss_extra option \<Rightarrow> bytes option \<Rightarrow> nat option \<Rightarrow> string option
     \<Rightarrow> gss_call list \<Rightarrow> gss_result" where
  "gss_ret rc x d l e cs =
     \<lparr>g_rc = rc, g_extra = x, g_data_out = d, g_len_out = l, g_ebuf = e, g_calls = cs\<rparr>"

text \<open>
  \<^verbatim>\<open>pbs_gss_wrap(extra, data_in, len_in, data_out, len_out, ebuf, ebufsz)\<close>;
  \<open>data_in\<close> is the \<^verbatim>\<open>len_in\<close> bytes at \<^verbatim>\<open>data_in\<close>.
\<close>

definition pbs_gss_wrap :: "gss_env \<Rightarrow> pbs_gss_extra option \<Rightarrow> bytes \<Rightarrow> gss_result" where
  "pbs_gss_wrap env extra data_in =
     (case extra of
        None \<Rightarrow> gss_ret PBS_GSS_ERR_INTERNAL None None None
                  (Some ''No GSS auth extra available'') []
      | Some x \<Rightarrow>
          if \<not> malloc_cleartext env
          then gss_ret PBS_GSS_ERR_INTERNAL (Some (x\<lparr>cleartext := None\<rparr>)) None None
                 (Some ''malloc failure'') []
          else
            let x1 = x\<lparr>cleartext := Some data_in, cleartext_len := length data_in\<rparr>
            in if ready x1 = 0
               then gss_ret PBS_GSS_ERR_INTERNAL (Some x1) None None
                      (Some ''asked to wrap data but GSS layer not ready'') []
               else
                 (case gss_wrap_fn env (confidential x1) data_in of
                    (complete, wrapped) \<Rightarrow>
                      if \<not> complete
                      then (if \<not> gss_release_ok env
                            then gss_ret PBS_GSS_ERR_INTERNAL (Some x1) None None None
                                   [Gss_wrap, Gss_release_buffer]
                            else gss_ret PBS_GSS_ERR_WRAP (Some x1) None None None
                                   [Gss_wrap, Gss_release_buffer])
                      else if \<not> malloc_data_out env
                      then gss_ret PBS_GSS_ERR_INTERNAL (Some x1) None (Some (length wrapped))
                             None [Gss_wrap]
                      else if \<not> gss_release_ok env
                      then gss_ret PBS_GSS_ERR_INTERNAL (Some x1) (Some wrapped)
                             (Some (length wrapped)) None [Gss_wrap, Gss_release_buffer]
                      else gss_ret PBS_GSS_OK (Some x1) (Some wrapped)
                             (Some (length wrapped)) None [Gss_wrap, Gss_release_buffer]))"

text \<open>
  \<^verbatim>\<open>pbs_gss_unwrap(extra, data_in, len_in, data_out, len_out, ebuf, ebufsz)\<close>;
  \<open>data_in = None\<close> is a null \<^verbatim>\<open>data_in\<close>, and \<open>len_in\<close> is passed beside it as in
  the source, which tests \<^verbatim>\<open>len_in == 0 && data_in == NULL\<close>.
\<close>

definition pbs_gss_unwrap ::
  "gss_env \<Rightarrow> pbs_gss_extra option \<Rightarrow> bytes option \<Rightarrow> nat \<Rightarrow> gss_result" where
  "pbs_gss_unwrap env extra data_in len_in =
     (case extra of
        None \<Rightarrow> gss_ret PBS_GSS_ERR_INTERNAL None None None
                  (Some ''No GSS auth extra available'') []
      | Some x \<Rightarrow>
          if ready x = 0
          then gss_ret PBS_GSS_ERR_INTERNAL (Some x) None None
                 (Some ''wrapped data ready but GSS layer not ready'') []
          else if confidential x = 0
          then gss_ret PBS_GSS_ERR_INTERNAL (Some x) None None
                 (Some ''wrapped data ready but confidentiality not ensured'') []
          else if len_in = 0 \<and> data_in = None
          then (case cleartext x of
                  None \<Rightarrow> gss_ret PBS_GSS_ERR_INTERNAL (Some x) None None
                            (Some ''No cleartext data available in gss auth extra'') []
                | Some c \<Rightarrow>
                    if \<not> malloc_data_out env
                    then gss_ret PBS_GSS_ERR_INTERNAL (Some x) None None
                           (Some ''malloc failure'') []
                    else gss_ret PBS_GSS_OK
                           (Some (x\<lparr>cleartext := None, cleartext_len := 0\<rparr>))
                           (Some (take (cleartext_len x) c)) (Some (cleartext_len x)) None [])
          else
            (case gss_unwrap_fn env (take len_in (case data_in of None \<Rightarrow> [] | Some d \<Rightarrow> d)) of
               (complete, unwrapped) \<Rightarrow>
                 if \<not> complete
                 then (if \<not> gss_release_ok env
                       then gss_ret PBS_GSS_ERR_INTERNAL (Some x) None None None
                              [Gss_unwrap, Gss_release_buffer]
                       else gss_ret PBS_GSS_ERR_UNWRAP (Some x) None None None
                              [Gss_unwrap, Gss_release_buffer])
                 else if length unwrapped = 0
                 then gss_ret PBS_GSS_ERR_UNWRAP (Some x) None None None [Gss_unwrap]
                 else if \<not> malloc_data_out env
                 then gss_ret PBS_GSS_ERR_INTERNAL (Some x) None (Some (length unwrapped))
                        None [Gss_unwrap]
                 else if \<not> gss_release_ok env
                 then gss_ret PBS_GSS_ERR_INTERNAL (Some x) (Some unwrapped)
                        (Some (length unwrapped)) None [Gss_unwrap, Gss_release_buffer]
                 else gss_ret PBS_GSS_OK (Some x) (Some unwrapped)
                        (Some (length unwrapped)) None [Gss_unwrap, Gss_release_buffer]))"


section \<open>Request and reply decoding (server/dis_read.c)\<close>

text \<open>
  Modelled from the spec: the request-type codes \<^verbatim>\<open>PBS_BATCH_*\<close> are declared in
  a header that is not among the sources; they are kept by name, as the request
  type catalog lists them.  \<open>PBS_BATCH_Unlisted n\<close> is a code that equals none of
  the named ones.
\<close>

datatype batch_type =
    PBS_BATCH_Connect | PBS_BATCH_Disconnect
  | PBS_BATCH_QueueJob | PBS_BATCH_SubmitResv
  | PBS_BATCH_JobCred | PBS_BATCH_UserCred
  | PBS_BATCH_jobscript | PBS_BATCH_MvJobFile
  | PBS_BATCH_RdytoCommit | PBS_BATCH_Commit | PBS_BATCH_Rerun
  | PBS_BATCH_DeleteJob | PBS_BATCH_DeleteResv | PBS_BATCH_ResvOccurEnd
  | PBS_BATCH_HoldJob | PBS_BATCH_ModifyJob | PBS_BATCH_ModifyJob_Async
  | PBS_BATCH_MessJob
  | PBS_BATCH_Shutdown | PBS_BATCH_FailOver
  | PBS_BATCH_SignalJob
  | PBS_BATCH_StatusJob
  | PBS_BATCH_PySpawn
  | PBS_BATCH_Authenticate
  | PBS_BATCH_RelnodesJob
  | PBS_BATCH_LocateJob
  | PBS_BATCH_Manager | PBS_BATCH_ReleaseJob | PBS_BATCH_ModifyResv
  | PBS_BATCH_MoveJob | PBS_BATCH_OrderJob
  | PBS_BATCH_RunJob | PBS_BATCH_AsyrunJob | PBS_BATCH_StageIn | PBS_BATCH_ConfirmResv
  | PBS_BATCH_DefSchReply
  | PBS_BATCH_SelectJobs | PBS_BATCH_SelStat
  | PBS_BATCH_StatusNode | PBS_BATCH_StatusResv | PBS_BATCH_StatusQue
  | PBS_BATCH_StatusSvr | PBS_BATCH_StatusSched | PBS_BATCH_StatusRsc | PBS_BATCH_StatusHook
  | PBS_BATCH_TrackJob
  | PBS_BATCH_Rescq | PBS_BATCH_ReserveResc | PBS_BATCH_ReleaseResc
  | PBS_BATCH_RegistDep
  | PBS_BATCH_PreemptJobs
  | PBS_BATCH_CopyHookFile | PBS_BATCH_DelHookFile
  | PBS_BATCH_CopyFiles | PBS_BATCH_DelFiles
  | PBS_BATCH_CopyFiles_Cred | PBS_BATCH_DelFiles_Cred
  | PBS_BATCH_Cred
  | PBS_BATCH_Unlisted int

text \<open>The per-type body codecs \<^verbatim>\<open>wire_decode_batch_req_*\<close> (defined elsewhere).\<close>

datatype codec =
    Req_queuejob | Req_jobcred | Req_usercred | Req_jobfile | Req_jobid | Req_manage
  | Req_messagejob | Req_shutdown | Req_signaljob | Req_status | Req_pyspawn
  | Req_authenticate | Req_relnodesjob | Req_movejob | Req_run | Req_defschreply
  | Req_selectjob | Req_trackjob | Req_rescq | Req_register | Req_preemptjobs
  | Req_copyhookfile | Req_delhookfile | Req_copyfiles | Req_copyfiles_cred | Req_cred

text \<open>
  What the \<^verbatim>\<open>switch (request->rq_type)\<close> of \<^verbatim>\<open>wire_decode_batch_request\<close> does
  for a type: nothing (\<^verbatim>\<open>Connect\<close>), return -1 (\<^verbatim>\<open>Disconnect\<close>), call one codec,
  or take the \<^verbatim>\<open>default\<close> label.  \<open>mom\<close> says whether \<^verbatim>\<open>PBS_MOM\<close> is defined: the
  server build and the execution-host build compile different case labels.
\<close>

datatype body_step = No_body | End_of_file | Body codec | Default_label

definition body_codec :: "bool \<Rightarrow> batch_type \<Rightarrow> body_step" where
  "body_codec mom t =
     (case t of
        PBS_BATCH_Connect \<Rightarrow> No_body
      | PBS_BATCH_Disconnect \<Rightarrow> End_of_file
      | PBS_BATCH_QueueJob \<Rightarrow> Body Req_queuejob
      | PBS_BATCH_SubmitResv \<Rightarrow> Body Req_queuejob
      | PBS_BATCH_JobCred \<Rightarrow> Body Req_jobcred
      | PBS_BATCH_UserCred \<Rightarrow> Body Req_usercred
      | PBS_BATCH_jobscript \<Rightarrow> Body Req_jobfile
      | PBS_BATCH_MvJobFile \<Rightarrow> Body Req_jobfile
      | PBS_BATCH_RdytoCommit \<Rightarrow> Body Req_jobid
      | PBS_BATCH_Commit \<Rightarrow> Body Req_jobid
      | PBS_BATCH_Rerun \<Rightarrow> Body Req_jobid
      | PBS_BATCH_DeleteJob \<Rightarrow> Body Req_manage
      | PBS_BATCH_DeleteResv \<Rightarrow> Body Req_manage
      | PBS_BATCH_ResvOccurEnd \<Rightarrow> Body Req_manage
      | PBS_BATCH_HoldJob \<Rightarrow> Body Req_manage
      | PBS_BATCH_ModifyJob \<Rightarrow> Body Req_manage
      | PBS_BATCH_ModifyJob_Async \<Rightarrow> Body Req_manage
      | PBS_BATCH_MessJob \<Rightarrow> Body Req_messagejob
      | PBS_BATCH_Shutdown \<Rightarrow> Body Req_shutdown
      | PBS_BATCH_FailOver \<Rightarrow> Body Req_shutdown
      | PBS_BATCH_SignalJob \<Rightarrow> Body Req_signaljob
      | PBS_BATCH_StatusJob \<Rightarrow> Body Req_status
      | PBS_BATCH_PySpawn \<Rightarrow> Body Req_pyspawn
      | PBS_BATCH_Authenticate \<Rightarrow> Body Req_authenticate
      | PBS_BATCH_RelnodesJob \<Rightarrow> if mom then Default_label else Body Req_relnodesjob
      | PBS_BATCH_LocateJob \<Rightarrow> if mom then Default_label else Body Req_jobid
      | PBS_BATCH_Manager \<Rightarrow> if mom then Default_label else Body Req_manage
      | PBS_BATCH_ReleaseJob \<Rightarrow> if mom then Default_label else Body Req_manage
      | PBS_BATCH_ModifyResv \<Rightarrow> if mom then Default_label else Body Req_manage
      | PBS_BATCH_MoveJob \<Rightarrow> if mom then Default_label else Body Req_movejob
      | PBS_BATCH_OrderJob \<Rightarrow> if mom then Default_label else Body Req_movejob
      | PBS_BATCH_RunJob \<Rightarrow> if mom then Default_label else Body Req_run
      | PBS_BATCH_AsyrunJob \<Rightarrow> if mom then Default_label else Body Req_run
      | PBS_BATCH_StageIn \<Rightarrow> if mom then Default_label else Body Req_run
      | PBS_BATCH_ConfirmResv \<Rightarrow> if mom then Default_label else Body Req_run
      | PBS_BATCH_DefSchReply \<Rightarrow> if mom then Default_label else Body Req_defschreply
      | PBS_BATCH_SelectJobs \<Rightarrow> if mom then Default_label else Body Req_selectjob
      | PBS_BATCH_SelStat \<Rightarrow> if mom then Default_label else Body Req_selectjob
      | PBS_BATCH_StatusNode \<Rightarrow> if mom then Default_label else Body Req_status
      | PBS_BATCH_StatusResv \<Rightarrow> if mom then Default_label else Body Req_status
      | PBS_BATCH_StatusQue \<Rightarrow> if mom then Default_label else Body Req_status
      | PBS_BATCH_StatusSvr \<Rightarrow> if mom then Default_label else Body Req_status
      | PBS_BATCH_StatusSched \<Rightarrow> if mom then Default_label else Body Req_status
      | PBS_BATCH_StatusRsc \<Rightarrow> if mom then Default_label else Body Req_status
      | PBS_BATCH_StatusHook \<Rightarrow> if mom then Default_label else Body Req_status
      | PBS_BATCH_TrackJob \<Rightarrow> if mom then Default_label else Body Req_trackjob
      | PBS_BATCH_Rescq \<Rightarrow> if mom then Default_label else Body Req_rescq
      | PBS_BATCH_ReserveResc \<Rightarrow> if mom then Default_label else Body Req_rescq
      | PBS_BATCH_ReleaseResc \<Rightarrow> if mom then Default_label else Body Req_rescq
      | PBS_BATCH_RegistDep \<Rightarrow> if mom then Default_label else Body Req_register
      | PBS_BATCH_PreemptJobs \<Rightarrow> if mom then Default_label else Body Req_preemptjobs
      | PBS_BATCH_CopyHookFile \<Rightarrow> if mom then Body Req_copyhookfile else Default_label
      | PBS_BATCH_DelHookFile \<Rightarrow> if mom then Body Req_delhookfile else Default_label
      | PBS_BATCH_CopyFiles \<Rightarrow> if mom then Body Req_copyfiles else Default_label
      | PBS_BATCH_DelFiles \<Rightarrow> if mom then Body Req_copyfiles else Default_label
      | PBS_BATCH_CopyFiles_Cred \<Rightarrow> if mom then Body Req_copyfiles_cred else Default_label
      | PBS_BATCH_DelFiles_Cred \<Rightarrow> if mom then Body Req_copyfiles_cred else Default_label
      | PBS_BATCH_Cred \<Rightarrow> if mom then Body Req_cred else Default_label
      | PBS_BATCH_Unlisted n \<Rightarrow> Default_label)"

text \<open>
  The protocol constants the decoders compare with: \<^verbatim>\<open>ns(ProtType_Batch)\<close> of the
  generated flatbuffer reader, and \<^verbatim>\<open>PBS_BATCH_PROT_TYPE\<close> and
  \<^verbatim>\<open>PBS_BATCH_PROT_VER\<close>.  None is defined in the sources at hand, so they are
  parameters.
\<close>

record proto_consts =
  ProtType_Batch :: int
  PBS_BATCH_PROT_TYPE :: int
  PBS_BATCH_PROT_VER :: int

text \<open>
  An encoded request, seen through the decoders that read it: what
  \<^verbatim>\<open>wire_decode_batch_req_hdr\<close> returns and stores (the request type, the protocol
  type and version), what each body codec would return on the body, and what
  \<^verbatim>\<open>wire_decode_batch_req_extend\<close> would return.
\<close>

record wire_request =
  hdr_rc :: int
  hdr_rq_type :: batch_type
  hdr_proto_type :: int
  hdr_proto_ver :: int
  body_rc :: "codec \<Rightarrow> int"
  extend_rc :: int

datatype decode_step = Dec_hdr | Dec_body codec | Dec_extend

text \<open>
  \<^verbatim>\<open>wire_decode_batch_request(buf, request)\<close>: the return value and the decoders
  called, in order.  The log lines are left out.
\<close>

definition wire_decode_batch_request ::
  "proto_consts \<Rightarrow> bool \<Rightarrow> wire_request \<Rightarrow> int \<times> decode_step list" where
  "wire_decode_batch_request K mom w =
     (if hdr_rc w \<noteq> PBSE_NONE \<or> hdr_proto_type w \<noteq> ProtType_Batch K \<or>
         hdr_proto_ver w > PBS_BATCH_PROT_VER K
      then (PBSE_PROTOCOL, [Dec_hdr])
      else
        (case body_codec mom (hdr_rq_type w) of
           End_of_file \<Rightarrow> (- 1, [Dec_hdr])
         | step \<Rightarrow>
             let (rc, called) =
                   (case step of
                      Body c \<Rightarrow> (body_rc w c, [Dec_hdr, Dec_body c])
                    | Default_label \<Rightarrow> (PBSE_UNKREQ, [Dec_hdr])
                    | _ \<Rightarrow> (PBSE_NONE, [Dec_hdr]))
             in if rc = PBSE_NONE
                then (if extend_rc w \<noteq> PBSE_NONE then PBSE_PROTOCOL else extend_rc w,
                      called @ [Dec_extend])
                else if rc \<noteq> PBSE_UNKREQ then (PBSE_PROTOCOL, called)
                else (rc, called)))"

text \<open>
  Modelled from the spec: \<^verbatim>\<open>DIS_PROTO\<close> is a macro of \<^verbatim>\<open>dis.h\<close>, which is not among
  the sources; it is a decode failure, that is, not zero.
\<close>

definition DIS_PROTO :: int where "DIS_PROTO = 9"

text \<open>
  An encoded reply on a stream connection, seen through the reads
  \<^verbatim>\<open>decode_DIS_replySvr\<close> makes: the value and the error code of the two
  \<^verbatim>\<open>disrui\<close> calls for the header, and what \<^verbatim>\<open>decode_DIS_replySvr_inner\<close> would
  return on the rest.
\<close>

record wire_reply =
  rp_type :: int
  rp_type_rc :: int
  rp_ver :: int
  rp_ver_rc :: int
  rp_inner_rc :: int

text \<open>
  \<^verbatim>\<open>decode_DIS_replySvr(sock, reply)\<close>: the return value, and whether the inner
  decoder was called.
\<close>

definition decode_DIS_replySvr :: "proto_consts \<Rightarrow> wire_reply \<Rightarrow> int \<times> bool" where
  "decode_DIS_replySvr K r =
     (if rp_type_rc r \<noteq> 0 then (rp_type_rc r, False)
      else if rp_type r \<noteq> PBS_BATCH_PROT_TYPE K then (DIS_PROTO, False)
      else if rp_ver_rc r \<noteq> 0 then (rp_ver_rc r, False)
      else if rp_ver r \<noteq> PBS_BATCH_PROT_VER K then (DIS_PROTO, False)
      else (rp_inner_rc r, True))"

section \<open>Authentication provider registry (lib/Libifl/auth.c)\<close>

text \<open>
  Modelled from the spec: \<^verbatim>\<open>AUTH_RESVPORT_NAME\<close> is a macro of a header that is not
  among the sources; the reserved-port method is the literal name \<open>resvport\<close>.
\<close>

definition AUTH_RESVPORT_NAME :: string where "AUTH_RESVPORT_NAME = ''resvport''"

text \<open>
  A loaded shared library as \<^verbatim>\<open>dlopen\<close> and \<^verbatim>\<open>dlsym\<close> show it: its handle and the
  address of each symbol it exports.
\<close>

record auth_lib =
  lib_handle :: nat
  lib_sym :: "string \<Rightarrow> nat option"

text \<open>
  Modelled from the spec: \<^verbatim>\<open>auth_def_t\<close> is declared in a header that is not among
  the sources.  It holds the name, the library handle and the seven entry points;
  \<open>None\<close> is a null function pointer.  \<open>ad_addr\<close> is the address of the structure itself, which is what
  \<^verbatim>\<open>get_auth\<close> returns; the \<^verbatim>\<open>next\<close> link is the order of the registry list.
\<close>

record auth_def =
  ad_addr :: nat
  ad_name :: string
  ad_lib_handle :: nat
  ad_set_config :: "nat option"
  ad_create_ctx :: "nat option"
  ad_destroy_ctx :: "nat option"
  ad_get_userinfo :: "nat option"
  ad_process_handshake_data :: "nat option"
  ad_encrypt_data :: "nat option"
  ad_decrypt_data :: "nat option"

text \<open>
  The process state the registry functions work on: the list \<^verbatim>\<open>loaded_auths\<close>
  (head first), the library paths passed to \<^verbatim>\<open>dlopen\<close> so far, the handles passed
  to \<^verbatim>\<open>dlclose\<close> so far, and the next free heap address.
\<close>

record auth_state =
  loaded_auths :: "auth_def list"
  dlopen_calls :: "string list"
  dlclose_calls :: "nat list"
  heap_next :: nat

text \<open>
  What surrounds a call: the configuration (\<^verbatim>\<open>pbs_conf\<close>), the limits
  \<^verbatim>\<open>MAXAUTHNAME\<close> and \<^verbatim>\<open>MAXPATHLEN\<close> (defined in headers that are not among the
  sources), whether \<^verbatim>\<open>calloc\<close> succeeds, and what \<^verbatim>\<open>dlopen\<close> finds at a path.
\<close>

record auth_env =
  pbs_exec_path :: string
  conf_auth_method :: string
  conf_encrypt_method :: string
  conf_supported_auth_methods :: "string list"
  MAXAUTHNAME :: nat
  MAXPATHLEN :: nat
  calloc_ok :: bool
  dlopen :: "string \<Rightarrow> auth_lib option"

text \<open>
  \<^verbatim>\<open>_load_auth(name)\<close> (Unix build).  The copy of the name is cut at
  \<^verbatim>\<open>MAXAUTHNAME\<close> characters as the source cuts it; the \<^verbatim>\<open>strcpy\<close> before the cut
  overruns the field for a longer name, which the model does not show.  When
  \<^verbatim>\<open>dlopen\<close> fails the structure is not freed; when a required symbol is missing
  it is released through \<^verbatim>\<open>_unload_auth\<close>, which closes the library.
\<close>

definition priv_load_auth ::
  "auth_env \<Rightarrow> string \<Rightarrow> auth_state \<Rightarrow> auth_def option \<times> auth_state" where
  "priv_load_auth env name st =
     (if name = AUTH_RESVPORT_NAME then (None, st)
      else if \<not> calloc_ok env then (None, st)
      else
        let libloc = take (MAXPATHLEN env - 1)
                       (pbs_exec_path env @ ''/lib/libauth_'' @ name @ ''.so'');
            st1 = st\<lparr>dlopen_calls := dlopen_calls st @ [libloc],
                      heap_next := Suc (heap_next st)\<rparr>
        in (case dlopen env libloc of
              None \<Rightarrow> (None, st1)
            | Some lib \<Rightarrow>
                if lib_sym lib ''pbs_auth_set_config'' = None \<or>
                   lib_sym lib ''pbs_auth_create_ctx'' = None \<or>
                   lib_sym lib ''pbs_auth_destroy_ctx'' = None \<or>
                   lib_sym lib ''pbs_auth_get_userinfo'' = None \<or>
                   lib_sym lib ''pbs_auth_process_handshake_data'' = None
                then (None, st1\<lparr>dlclose_calls := dlclose_calls st1 @ [lib_handle lib]\<rparr>)
                else (Some \<lparr>ad_addr = heap_next st,
                             ad_name = take (MAXAUTHNAME env) name,
                             ad_lib_handle = lib_handle lib,
                             ad_set_config = lib_sym lib ''pbs_auth_set_config'',
                             ad_create_ctx = lib_sym lib ''pbs_auth_create_ctx'',
                             ad_destroy_ctx = lib_sym lib ''pbs_auth_destroy_ctx'',
                             ad_get_userinfo = lib_sym lib ''pbs_auth_get_userinfo'',
                             ad_process_handshake_data =
                               lib_sym lib ''pbs_auth_process_handshake_data'',
                             ad_encrypt_data = lib_sym lib ''pbs_auth_encrypt_data'',
                             ad_decrypt_data = lib_sym lib ''pbs_auth_decrypt_data''\<rparr>,
                      st1)))"

text \<open>\<^verbatim>\<open>get_auth(method)\<close>: scan the registry, and load on a miss.\<close>

definition get_auth ::
  "auth_env \<Rightarrow> string \<Rightarrow> auth_state \<Rightarrow> auth_def option \<times> auth_state" where
  "get_auth env method st =
     (case find (\<lambda>a. ad_name a = method) (loaded_auths st) of
        Some a \<Rightarrow> (Some a, st)
      | None \<Rightarrow>
          (case priv_load_auth env method st of
             (None, st1) \<Rightarrow> (None, st1)
           | (Some a, st1) \<Rightarrow> (Some a, st1\<lparr>loaded_auths := a # loaded_auths st1\<rparr>)))"

text \<open>\<^verbatim>\<open>unload_auths()\<close>: release every cached definition.\<close>

definition unload_auths :: "auth_state \<Rightarrow> auth_state" where
  "unload_auths st =
     st\<lparr>loaded_auths := [],
        dlclose_calls := dlclose_calls st @ map ad_lib_handle (loaded_auths st)\<rparr>"

text \<open>
  \<^verbatim>\<open>is_valid_encrypt_method(method)\<close>: loads a definition of its own, looks at the
  two optional entry points, and unloads it again; the registry is not consulted.
\<close>

definition is_valid_encrypt_method ::
  "auth_env \<Rightarrow> string \<Rightarrow> auth_state \<Rightarrow> int \<times> auth_state" where
  "is_valid_encrypt_method env method st =
     (case priv_load_auth env method st of
        (None, st1) \<Rightarrow> (0, st1)
      | (Some a, st1) \<Rightarrow>
          (if ad_encrypt_data a \<noteq> None \<and> ad_decrypt_data a \<noteq> None then 1 else 0,
           st1\<lparr>dlclose_calls := dlclose_calls st1 @ [ad_lib_handle a]\<rparr>))"

text \<open>
  The loop of \<^verbatim>\<open>load_auths\<close> over \<^verbatim>\<open>pbs_conf.supported_auth_methods\<close> (server mode).
\<close>

fun load_supported :: "auth_env \<Rightarrow> string list \<Rightarrow> auth_state \<Rightarrow> int \<times> auth_state" where
  "load_supported env [] st = (0, st)"
| "load_supported env (m # ms) st =
     (if m = AUTH_RESVPORT_NAME then load_supported env ms st
      else
        (case get_auth env m st of
           (Some a, st1) \<Rightarrow> load_supported env ms st1
         | (None, st1) \<Rightarrow>
             (case priv_load_auth env m st1 of
                (None, st2) \<Rightarrow> (1, unload_auths st2)
              | (Some a, st2) \<Rightarrow>
                  load_supported env ms (st2\<lparr>loaded_auths := a # loaded_auths st2\<rparr>))))"

text \<open>\<^verbatim>\<open>load_auths(mode)\<close>; \<open>server\<close> says whether \<^verbatim>\<open>mode == AUTH_SERVER\<close>.\<close>

definition load_auths :: "auth_env \<Rightarrow> bool \<Rightarrow> auth_state \<Rightarrow> int \<times> auth_state" where
  "load_auths env server st =
     (if loaded_auths st \<noteq> [] then (0, st)
      else
        (case (if conf_auth_method env \<noteq> AUTH_RESVPORT_NAME
               then (case priv_load_auth env (conf_auth_method env) st of
                       (None, st1) \<Rightarrow> (False, st1)
                     | (Some a, st1) \<Rightarrow> (True, st1\<lparr>loaded_auths := [a]\<rparr>))
               else (True, st)) of
           (False, st1) \<Rightarrow> (1, st1)
         | (True, st1) \<Rightarrow>
             (case (if conf_encrypt_method env \<noteq> [] \<and>
                       conf_auth_method env \<noteq> conf_encrypt_method env
                    then (case priv_load_auth env (conf_encrypt_method env) st1 of
                            (None, st2) \<Rightarrow> (False, unload_auths st2)
                          | (Some a, st2) \<Rightarrow>
                              (True, st2\<lparr>loaded_auths := a # loaded_auths st2\<rparr>))
                    else (True, st1)) of
                (False, st2) \<Rightarrow> (1, st2)
              | (True, st2) \<Rightarrow>
                  if server then load_supported env (conf_supported_auth_methods env) st2
                  else (0, st2))))"

section \<open>Shell resolution on the execution host (resmom/linux/mom_start.c)\<close>

text \<open>\<^verbatim>\<open>strchr(s, c)\<close>: the offset of the first \<open>c\<close> in \<open>s\<close>, \<open>None\<close> for a null result.\<close>

fun strchr :: "string \<Rightarrow> char \<Rightarrow> nat option" where
  "strchr [] c = None"
| "strchr (x # xs) c = (if x = c then Some 0 else map_option Suc (strchr xs c))"

text \<open>
  The loop of \<^verbatim>\<open>set_shell\<close> over the entries of the \<^verbatim>\<open>JOB_ATR_shell\<close> string array,
  from the current entry on, with the current value of \<^verbatim>\<open>shell\<close>.  It returns the
  shell and the entries as the loop leaves them: \<^verbatim>\<open>*cp = '\0'\<close> cuts the matching
  entry in place.
\<close>

fun set_shell_loop :: "string \<Rightarrow> string list \<Rightarrow> string \<Rightarrow> string \<times> string list" where
  "set_shell_loop mom_host [] shell = (shell, [])"
| "set_shell_loop mom_host (e # es) shell =
     (case strchr e CHR ''@'' of
        Some k \<Rightarrow>
          if strncmp_eq mom_host (drop (Suc k) e) (length (drop (Suc k) e))
          then (take k e, take k e # es)
          else (case set_shell_loop mom_host es shell of (s, es') \<Rightarrow> (s, e # es'))
      | None \<Rightarrow>
          (case set_shell_loop mom_host es e of (s, es') \<Rightarrow> (s, e # es')))"

text \<open>
  \<^verbatim>\<open>set_shell(pjob, pwdp)\<close>: \<open>is_set\<close> is \<^verbatim>\<open>is_jattr_set(pjob, JOB_ATR_shell)\<close>,
  \<open>vstrs\<close> the used entries of \<^verbatim>\<open>get_jattr_arst(pjob, JOB_ATR_shell)\<close> (\<open>None\<close> for
  a null pointer), \<open>pw_shell\<close> is \<^verbatim>\<open>pwdp->pw_shell\<close>.
\<close>

definition set_shell ::
  "string \<Rightarrow> bool \<Rightarrow> string list option \<Rightarrow> string \<Rightarrow> string \<times> string list option" where
  "set_shell mom_host is_set vstrs pw_shell =
     (case vstrs of
        Some es \<Rightarrow>
          if is_set
          then (case set_shell_loop mom_host es pw_shell of (s, es') \<Rightarrow> (s, Some es'))
          else (pw_shell, vstrs)
      | None \<Rightarrow> (pw_shell, vstrs))"

text \<open>
  The entries in the words of the specification: the host suffix of an entry is
  what follows its first \<open>@\<close>, the name is what precedes it, and an entry without
  \<open>@\<close> is unqualified.  A host suffix matches the execution host when
  \<^verbatim>\<open>strncmp\<close> over the length of the suffix finds no difference.
\<close>

definition shell_unqualified :: "string \<Rightarrow> bool" where
  "shell_unqualified e = (strchr e CHR ''@'' = None)"

definition shell_name :: "string \<Rightarrow> string" where
  "shell_name e = (case strchr e CHR ''@'' of None \<Rightarrow> e | Some k \<Rightarrow> take k e)"

definition shell_host_matches :: "string \<Rightarrow> string \<Rightarrow> bool" where
  "shell_host_matches mom_host e =
     (case strchr e CHR ''@'' of
        None \<Rightarrow> False
      | Some k \<Rightarrow> strncmp_eq mom_host (drop (Suc k) e) (length (drop (Suc k) e)))"

section \<open>Per-connection entry point (server/process_request.c)\<close>

text \<open>
  What \<^verbatim>\<open>process_request\<close> does to the outside, in order.  \<open>Proceed\<close> stands for
  the rest of the function after a request has been decoded.
\<close>

datatype conn_kind = FromClientDIS | Other_kind





section \<open>Signal, suspend and resume (server/req_signal.c)\<close>

text \<open>
  Modelled from the spec: the pseudo-signal names, the state letters and the
  substates are macros of headers that are not among the sources.  The four
  pseudo-signal names are different strings, and the state letters are different
  characters; nothing below depends on their text.  The substates are kept by
  name, with \<open>JOB_SUBSTATE_other n\<close> for any substate the signal code does not
  name.
\<close>

definition SIG_RESUME :: string where "SIG_RESUME = ''resume''"
definition SIG_SUSPEND :: string where "SIG_SUSPEND = ''suspend''"
definition SIG_ADMIN_RESUME :: string where "SIG_ADMIN_RESUME = ''admin-resume''"
definition SIG_ADMIN_SUSPEND :: string where "SIG_ADMIN_SUSPEND = ''admin-suspend''"

definition JOB_STATE_LTR_RUNNING :: char where "JOB_STATE_LTR_RUNNING = CHR ''R''"
definition JOB_STATE_LTR_BEGUN :: char where "JOB_STATE_LTR_BEGUN = CHR ''B''"

datatype job_substate =
    JOB_SUBSTATE_RUNNING | JOB_SUBSTATE_SUSPEND | JOB_SUBSTATE_SCHSUSP
  | JOB_SUBSTATE_PROVISION | JOB_SUBSTATE_other int

text \<open>
  The fields of a job that the signal code reads and writes.  The two bits
  \<^verbatim>\<open>JOB_SVFLG_Suspend\<close> and \<^verbatim>\<open>JOB_SVFLG_AdmSuspd\<close> of \<^verbatim>\<open>ji_svrflags\<close> are one field
  each; \<open>exec_vnode\<close> and \<open>exec_vnode_deallocated\<close> are the string values of the
  two job attributes, \<open>None\<close> when the attribute has no value.
\<close>

record job =
  ji_jobid :: string
  ji_state :: char
  ji_substate :: job_substate
  svflg_Suspend :: bool
  svflg_AdmSuspd :: bool
  exec_vnode :: "string option"
  exec_vnode_deallocated :: "string option"

text \<open>The fields of a Signal-Job request that \<^verbatim>\<open>req_signaljob2\<close> uses.\<close>

record signal_req =
  rq_signame :: string
  rq_fromsvr :: int
  rq_extra :: "string option"

text \<open>
  What the server functions called by \<^verbatim>\<open>req_signaljob2\<close> (none of them among the
  sources) answer: the return values of \<^verbatim>\<open>assign_hosts\<close>, \<^verbatim>\<open>set_nodes\<close> and
  \<^verbatim>\<open>relay_to_mom\<close>, and whether \<^verbatim>\<open>find_assoc_sched_jid\<close> finds a scheduler.
\<close>

record signal_env =
  assign_hosts_rc :: int
  set_nodes_rc :: int
  sched_found :: bool
  relay_to_mom_rc :: int

text \<open>The calls \<^verbatim>\<open>req_signaljob2\<close> makes, in order.\<close>

datatype signal_act =
    Sig_log_event
  | Sig_log_err
  | Sig_req_reject int
  | Sig_reply_send
  | Assign_hosts string
  | Set_resc_assigned_INCR
  | Set_nodes string
  | Svr_setjobstate char job_substate
  | Set_scheduler_flag
  | Relay_to_mom
  | Rel_resc

text \<open>
  The end of \<^verbatim>\<open>req_signaljob2\<close>: log, relay to the execution host, and on a relay
  failure release the resources of a resume and reject.
\<close>

definition relay_tail :: "signal_env \<Rightarrow> bool \<Rightarrow> signal_act list" where
  "relay_tail env resume =
     [Sig_log_event, Relay_to_mom] @
     (if relay_to_mom_rc env \<noteq> 0
      then (if resume then [Rel_resc] else []) @ [Sig_req_reject (relay_to_mom_rc env)]
      else [])"

text \<open>
  \<^verbatim>\<open>req_signaljob2(preq, pjob)\<close>: the job and the request as the call leaves them,
  and the calls made.  \<^verbatim>\<open>svr_setjobstate\<close> stores the state and the substate.
\<close>

definition req_signaljob2 ::
  "signal_env \<Rightarrow> signal_req \<Rightarrow> job \<Rightarrow> job \<times> signal_req \<times> signal_act list" where
  "req_signaljob2 env preq pjob =
     (if ji_state pjob \<noteq> JOB_STATE_LTR_RUNNING \<or>
         (ji_state pjob = JOB_STATE_LTR_RUNNING \<and> ji_substate pjob = JOB_SUBSTATE_PROVISION)
      then (pjob, preq, [Sig_req_reject PBSE_BADSTATE])
      else if (rq_signame preq = SIG_ADMIN_RESUME \<and> \<not> svflg_AdmSuspd pjob) \<or>
              (rq_signame preq = SIG_RESUME \<and> svflg_AdmSuspd pjob)
      then (pjob, preq, [Sig_req_reject PBSE_WRONG_RESUME])
      else
        let resume = (rq_signame preq = SIG_RESUME \<or> rq_signame preq = SIG_ADMIN_RESUME);
            suspend = (\<not> resume \<and>
                       (rq_signame preq = SIG_SUSPEND \<or> rq_signame preq = SIG_ADMIN_SUSPEND))
        in if suspend \<or> resume
           then
             let preq1 = preq\<lparr>rq_extra := Some (ji_jobid pjob)\<rparr>
             in if resume
                then
                  if svflg_Suspend pjob
                  then
                    if rq_fromsvr preq1 = 1 \<or> rq_signame preq1 = SIG_ADMIN_RESUME
                    then
                      (case (case exec_vnode pjob of
                               None \<Rightarrow> Some []
                             | Some pnodespec \<Rightarrow>
                                 if assign_hosts_rc env = 0
                                 then Some [Assign_hosts pnodespec, Set_resc_assigned_INCR]
                                 else None) of
                         None \<Rightarrow>
                           (pjob, preq1,
                            [Sig_log_event, Assign_hosts (the (exec_vnode pjob)),
                             Sig_req_reject (assign_hosts_rc env)])
                       | Some acts \<Rightarrow>
                           (pjob, preq1,
                            [Sig_log_event] @ acts @
                            (case exec_vnode_deallocated pjob of
                               None \<Rightarrow> []
                             | Some d \<Rightarrow>
                                 if set_nodes_rc env \<noteq> 0
                                 then [Set_nodes d, Sig_req_reject (set_nodes_rc env),
                                       Sig_log_event]
                                 else [Set_nodes d]) @
                            relay_tail env resume))
                    else
                      (pjob\<lparr>ji_state := JOB_STATE_LTR_RUNNING,
                             ji_substate := JOB_SUBSTATE_SCHSUSP\<rparr>,
                       preq1,
                       [Sig_log_event,
                        Svr_setjobstate JOB_STATE_LTR_RUNNING JOB_SUBSTATE_SCHSUSP,
                        if sched_found env then Set_scheduler_flag else Sig_log_err,
                        Sig_reply_send])
                  else (pjob, preq1, [Sig_log_event, Sig_req_reject PBSE_BADSTATE])
                else (pjob, preq1, [Sig_log_event] @ relay_tail env resume)
           else (pjob, preq, relay_tail env resume))"

subsection \<open>Fan-out to the subjobs of an array\<close>

text \<open>
  The requests of one Signal-Job operation on an array job: the reference count
  \<^verbatim>\<open>rq_refct\<close> of the original request, the duplicates that have been relayed to
  an execution host and are still outstanding, the number of duplicates made so
  far (a duplicate is named by its number), and what has happened to the
  requests, in order.
\<close>

datatype fan_event =
    Reject_parent int
  | Reply_parent
  | Dup_created nat nat
  | Dup_freed nat
  | Direct_signal
  | Chk_job_request_failed

record fan_state =
  rq_refct :: int
  fs_pending :: "nat list"
  fs_ndups :: nat
  fs_events :: "fan_event list"

text \<open>
  Modelled from the spec: \<^verbatim>\<open>reply_send\<close> is not among the sources.  Called on the
  original request it sends the one aggregated reply to the requester.
\<close>

definition reply_send :: "fan_state \<Rightarrow> fan_state" where
  "reply_send st = st\<lparr>fs_events := fs_events st @ [Reply_parent]\<rparr>"

text \<open>
  Modelled from the spec: \<^verbatim>\<open>req_reject\<close> is not among the sources.  Called on the
  original request it sends a rejection with the given code.
\<close>

definition req_reject :: "int \<Rightarrow> fan_state \<Rightarrow> fan_state" where
  "req_reject code st = st\<lparr>fs_events := fs_events st @ [Reject_parent code]\<rparr>"

text \<open>
  \<^verbatim>\<open>free_br(preq)\<close> for a request with a parent (\<^verbatim>\<open>preq->rq_parentbr\<close> is set), that
  is, for duplicate \<open>d\<close>: if the parent's count is positive it is decremented, and
  when it reaches zero the parent's reply is sent.
\<close>

definition free_br :: "nat \<Rightarrow> fan_state \<Rightarrow> fan_state" where
  "free_br d st =
     (let st1 = st\<lparr>fs_events := fs_events st @ [Dup_freed d]\<rparr>
      in if rq_refct st1 > 0
         then (let st2 = st1\<lparr>rq_refct := rq_refct st1 - 1\<rparr>
               in if rq_refct st2 = 0 then reply_send st2 else st2)
         else st1)"

text \<open>
  Modelled from the spec: what the calls of the common signal routine do to a
  duplicate, the functions called not being among the sources.  A rejection of
  the duplicate or a reply to it (\<^verbatim>\<open>req_reject\<close>, \<^verbatim>\<open>reply_send\<close>) is not sent to the
  requester; it ends the duplicate, which is freed.  A relay that succeeds leaves
  the duplicate outstanding until the answer of the execution host has been
  handled.  The other calls do not touch the requests.
\<close>

fun route_signal :: "signal_env \<Rightarrow> nat \<Rightarrow> signal_act list \<Rightarrow> fan_state \<Rightarrow> fan_state" where
  "route_signal env d [] st = st"
| "route_signal env d (a # acts) st =
     route_signal env d acts
       (case a of
          Sig_req_reject c \<Rightarrow> free_br d st
        | Sig_reply_send \<Rightarrow> free_br d st
        | Relay_to_mom \<Rightarrow>
            if relay_to_mom_rc env = 0 then st\<lparr>fs_pending := fs_pending st @ [d]\<rparr> else st
        | _ \<Rightarrow> st)"

text \<open>
  Modelled from the spec: \<^verbatim>\<open>dup_br_for_subjob\<close> is not among the sources.  It
  duplicates the request for one subjob, the duplicate sharing the payload of the
  original and holding a reference to it (the count of the original is
  incremented and the duplicate points to it as its parent), and passes the
  duplicate to the common signal routine \<^verbatim>\<open>req_signaljob2\<close>.  \<open>alloc_ok\<close> tells for
  each duplicate whether it can be allocated, \<open>envs\<close> what the server functions
  answer while the routine handles it; \<open>off\<close> is the subjob's offset in the
  tracking table.
\<close>

definition dup_br_for_subjob ::
  "(nat \<Rightarrow> bool) \<Rightarrow> (nat \<Rightarrow> signal_env) \<Rightarrow> signal_req \<Rightarrow> job \<Rightarrow> nat \<Rightarrow> fan_state
     \<Rightarrow> fan_state" where
  "dup_br_for_subjob alloc_ok envs preq pjob off st =
     (let d = fs_ndups st
      in if \<not> alloc_ok d then st
         else
           let st1 = st\<lparr>rq_refct := rq_refct st + 1, fs_ndups := Suc d,
                         fs_events := fs_events st @ [Dup_created d off]\<rparr>
           in route_signal (envs d) d (snd (snd (req_signaljob2 (envs d) preq pjob))) st1)"

text \<open>
  The answer of an execution host for a relayed duplicate has been handled
  (\<^verbatim>\<open>post_signal_req\<close> ends in \<^verbatim>\<open>reply_ack\<close> or \<^verbatim>\<open>req_reject\<close> on the duplicate): the
  duplicate is freed.
\<close>

definition complete_dup :: "fan_state \<Rightarrow> nat \<Rightarrow> fan_state" where
  "complete_dup st d =
     (if d \<in> set (fs_pending st)
      then free_br d (st\<lparr>fs_pending := removeAll d (fs_pending st)\<rparr>)
      else st)"

text \<open>
  An entry of the subjob tracking table: the state letter that
  \<^verbatim>\<open>get_subjob_state\<close> reports for the offset, and \<^verbatim>\<open>trk_psubjob\<close>.
\<close>

record subjob_entry =
  trk_state :: char
  trk_psubjob :: "job option"

text \<open>\<^verbatim>\<open>get_subjob_state(parent, offset)\<close>; \<open>None\<close> is the result -1.\<close>

definition get_subjob_state :: "subjob_entry list \<Rightarrow> int \<Rightarrow> char option" where
  "get_subjob_state tbl off =
     (if 0 \<le> off \<and> nat off < length tbl then Some (trk_state (tbl ! nat off)) else None)"

text \<open>
  The loop of the whole-array case over the table offsets from \<open>i\<close> on, \<open>es\<close>
  being the entries from offset \<open>i\<close>.
\<close>

fun array_loop ::
  "(nat \<Rightarrow> bool) \<Rightarrow> (nat \<Rightarrow> signal_env) \<Rightarrow> signal_req \<Rightarrow> bool \<Rightarrow> bool \<Rightarrow>
     subjob_entry list \<Rightarrow> nat \<Rightarrow> fan_state \<Rightarrow> fan_state" where
  "array_loop alloc_ok envs preq suspend resume [] i st = st"
| "array_loop alloc_ok envs preq suspend resume (e # es) i st =
     array_loop alloc_ok envs preq suspend resume es (Suc i)
       (if trk_state e = JOB_STATE_LTR_RUNNING
        then (case trk_psubjob e of
                None \<Rightarrow> st
              | Some pjob \<Rightarrow>
                  if suspend \<and> svflg_Suspend pjob then st
                  else if resume \<and> \<not> svflg_Suspend pjob then st
                  else dup_br_for_subjob alloc_ok envs preq pjob i st)
        else st)"

text \<open>
  The indices \<^verbatim>\<open>for (i = start; i <= end; i += step)\<close> runs through; \<open>None\<close> when
  the loop does not end (a step that is not positive, with \<open>start \<le> end\<close>).
\<close>

function idx_seq :: "int \<Rightarrow> int \<Rightarrow> int \<Rightarrow> int list option" where
  "idx_seq i e step =
     (if i \<le> e
      then (if step \<le> 0 then None else map_option ((#) i) (idx_seq (i + step) e step))
      else Some [])"
  by pat_completeness auto
termination
  by (relation "measure (\<lambda>(i, e, step). nat (e - i + 1))") auto

declare idx_seq.simps [simp del]

text \<open>
  The first pass over the groups of a subjob range: the number of indices whose
  subjob is running.  \<open>to_off\<close> is \<^verbatim>\<open>numindex_to_offset\<close>.
\<close>

fun count_running ::
  "subjob_entry list \<Rightarrow> (int \<Rightarrow> int) \<Rightarrow> (int \<times> int \<times> int) list \<Rightarrow> nat option" where
  "count_running tbl to_off [] = Some 0"
| "count_running tbl to_off ((start, e, step) # gs) =
     (case idx_seq start e step of
        None \<Rightarrow> None
      | Some is \<Rightarrow>
          map_option
            ((+) (length (filter (\<lambda>i. get_subjob_state tbl (to_off i) =
                                         Some JOB_STATE_LTR_RUNNING) is)))
            (count_running tbl to_off gs))"

text \<open>The inner loop of the second pass, over the indices of one group.\<close>

fun range_for ::
  "(nat \<Rightarrow> bool) \<Rightarrow> (nat \<Rightarrow> signal_env) \<Rightarrow> signal_req \<Rightarrow> subjob_entry list \<Rightarrow>
     (int \<Rightarrow> int) \<Rightarrow> int list \<Rightarrow> fan_state \<Rightarrow> fan_state" where
  "range_for alloc_ok envs preq tbl to_off [] st = st"
| "range_for alloc_ok envs preq tbl to_off (i # is) st =
     range_for alloc_ok envs preq tbl to_off is
       (if get_subjob_state tbl (to_off i) = Some JOB_STATE_LTR_RUNNING
        then (case trk_psubjob (tbl ! nat (to_off i)) of
                None \<Rightarrow> st
              | Some pjob \<Rightarrow>
                  dup_br_for_subjob alloc_ok envs preq pjob (nat (to_off i)) st)
        else st)"

text \<open>
  The second pass over the groups; \<open>ok\<close> tells whether \<^verbatim>\<open>parse_subjob_index\<close> ends
  the list of groups with 1 (the end of the range) or with -1 (an error), in
  which case the request is rejected before the loop is left.
\<close>

fun range_loop ::
  "(nat \<Rightarrow> bool) \<Rightarrow> (nat \<Rightarrow> signal_env) \<Rightarrow> signal_req \<Rightarrow> subjob_entry list \<Rightarrow>
     (int \<Rightarrow> int) \<Rightarrow> (int \<times> int \<times> int) list \<Rightarrow> bool \<Rightarrow> fan_state \<Rightarrow> fan_state option" where
  "range_loop alloc_ok envs preq tbl to_off [] ok st =
     Some (if ok then st else req_reject PBSE_IVALREQ st)"
| "range_loop alloc_ok envs preq tbl to_off ((start, e, step) # gs) ok st =
     (case idx_seq start e step of
        None \<Rightarrow> None
      | Some is \<Rightarrow>
          range_loop alloc_ok envs preq tbl to_off gs ok
            (range_for alloc_ok envs preq tbl to_off is st))"

text \<open>
  The job-addressing shapes \<^verbatim>\<open>chk_job_request\<close> reports, and what
  \<^verbatim>\<open>req_signaljob\<close> is given: whether \<^verbatim>\<open>chk_job_request\<close> found the job, the shape,
  the signal request, whether the requester has one of the operator and manager
  permission bits, whether the array job has begun, the tracking table, the offset
  of a single subjob (\<^verbatim>\<open>subjob_index_to_offset\<close>), the range of the job
  identifier as \<^verbatim>\<open>parse_subjob_index\<close> splits it (\<open>None\<close> when
  \<^verbatim>\<open>get_index_from_jid\<close> returns a null pointer), \<^verbatim>\<open>numindex_to_offset\<close>, and, for
  each duplicate, whether it can be allocated and what the server functions
  answer while it is handled.
\<close>

datatype array_shape = IS_ARRAY_NO | IS_ARRAY_Single | IS_ARRAY_ArrayJob | IS_ARRAY_Range

record signal_input =
  si_parent_found :: bool
  si_jt :: array_shape
  si_preq :: signal_req
  si_oper_or_mgr :: bool
  si_begun :: bool
  si_table :: "subjob_entry list"
  si_single_offset :: int
  si_range :: "((int \<times> int \<times> int) list \<times> bool) option"
  si_to_offset :: "int \<Rightarrow> int"
  si_alloc_ok :: "nat \<Rightarrow> bool"
  si_envs :: "nat \<Rightarrow> signal_env"

text \<open>
  \<^verbatim>\<open>req_signaljob(preq)\<close>, started on the state \<open>st\<close> of the request; \<open>None\<close> when
  a loop over a range does not end.
\<close>

definition req_signaljob :: "signal_input \<Rightarrow> fan_state \<Rightarrow> fan_state option" where
  "req_signaljob inp st =
     (let signame = rq_signame (si_preq inp);
          resume = (signame = SIG_RESUME \<or> signame = SIG_ADMIN_RESUME);
          suspend = (\<not> resume \<and> (signame = SIG_SUSPEND \<or> signame = SIG_ADMIN_SUSPEND))
      in if \<not> si_parent_found inp
         then Some (st\<lparr>fs_events := fs_events st @ [Chk_job_request_failed]\<rparr>)
         else if (suspend \<or> resume) \<and> \<not> si_oper_or_mgr inp
         then Some (req_reject PBSE_PERM st)
         else
           (case si_jt inp of
              IS_ARRAY_NO \<Rightarrow> Some (st\<lparr>fs_events := fs_events st @ [Direct_signal]\<rparr>)
            | IS_ARRAY_Single \<Rightarrow>
                if si_single_offset inp = - 1 then Some (req_reject PBSE_UNKJOBID st)
                else
                  (case get_subjob_state (si_table inp) (si_single_offset inp) of
                     None \<Rightarrow> Some (req_reject PBSE_IVALREQ st)
                   | Some sjst \<Rightarrow>
                       if sjst = JOB_STATE_LTR_RUNNING
                       then (case trk_psubjob (si_table inp ! nat (si_single_offset inp)) of
                               Some pjob \<Rightarrow>
                                 Some (st\<lparr>fs_events := fs_events st @ [Direct_signal]\<rparr>)
                             | None \<Rightarrow> Some (req_reject PBSE_BADSTATE st))
                       else Some (req_reject PBSE_BADSTATE st))
            | IS_ARRAY_ArrayJob \<Rightarrow>
                if \<not> si_begun inp then Some (req_reject PBSE_BADSTATE st)
                else
                  let st1 = st\<lparr>rq_refct := rq_refct st + 1\<rparr>;
                      st2 = array_loop (si_alloc_ok inp) (si_envs inp) (si_preq inp)
                              suspend resume (si_table inp) 0 st1;
                      st3 = st2\<lparr>rq_refct := rq_refct st2 - 1\<rparr>
                  in Some (if rq_refct st3 = 0 then reply_send st3 else st3)
            | IS_ARRAY_Range \<Rightarrow>
                (case si_range inp of
                   None \<Rightarrow> Some (req_reject PBSE_IVALREQ st)
                 | Some (groups, ok) \<Rightarrow>
                     (case count_running (si_table inp) (si_to_offset inp) groups of
                        None \<Rightarrow> None
                      | Some anygood \<Rightarrow>
                          if \<not> ok then Some (req_reject PBSE_IVALREQ st)
                          else if anygood = 0 then Some (req_reject PBSE_BADSTATE st)
                          else
                            (case range_loop (si_alloc_ok inp) (si_envs inp) (si_preq inp)
                                    (si_table inp) (si_to_offset inp) groups ok
                                    (st\<lparr>rq_refct := rq_refct st + 1\<rparr>) of
                               None \<Rightarrow> None
                             | Some st2 \<Rightarrow>
                                 let st3 = st2\<lparr>rq_refct := rq_refct st2 - 1\<rparr>
                                 in Some (if rq_refct st3 = 0 then reply_send st3
                                          else st3))))))"

text \<open>
  A request as it comes from \<^verbatim>\<open>alloc_br\<close>, which clears the structure: the count
  is zero, and there are no duplicates.
\<close>

definition fresh_request :: fan_state where
  "fresh_request = \<lparr>rq_refct = 0, fs_pending = [], fs_ndups = 0, fs_events = []\<rparr>"

text \<open>
  A request reaches the fan-out loop of \<^verbatim>\<open>req_signaljob\<close>: the job is found, the
  permission check passes, and either the whole array is addressed and has
  begun, or a range is addressed that parses and has a running subjob.
\<close>

definition reaches_fan_out :: "signal_input \<Rightarrow> bool" where
  "reaches_fan_out inp =
     (si_parent_found inp \<and>
      (si_oper_or_mgr inp \<or>
       rq_signame (si_preq inp) \<notin>
         {SIG_RESUME, SIG_ADMIN_RESUME, SIG_SUSPEND, SIG_ADMIN_SUSPEND}) \<and>
      (case si_jt inp of
         IS_ARRAY_ArrayJob \<Rightarrow> si_begun inp
       | IS_ARRAY_Range \<Rightarrow>
           (case si_range inp of
              None \<Rightarrow> False
            | Some (groups, ok) \<Rightarrow>
                ok \<and> (case count_running (si_table inp) (si_to_offset inp) groups of
                        None \<Rightarrow> False
                      | Some anygood \<Rightarrow> anygood \<noteq> 0))
       | _ \<Rightarrow> False))"

text \<open>
  The reference-counting discipline, as an invariant: the count of the original
  request is the number of outstanding duplicates plus the \<open>k\<close> references the
  handler itself holds; the outstanding duplicates are distinct and have been
  made; every duplicate made is outstanding or has been freed; and nothing has
  happened to the requests but the making and freeing of duplicates and the
  aggregated reply.
\<close>

definition fan_inv :: "int \<Rightarrow> fan_state \<Rightarrow> bool" where
  "fan_inv k st \<longleftrightarrow>
     rq_refct st = k + int (length (fs_pending st)) \<and>
     distinct (fs_pending st) \<and>
     (\<forall>d \<in> set (fs_pending st). d < fs_ndups st) \<and>
     (\<forall>d < fs_ndups st. d \<in> set (fs_pending st) \<or> Dup_freed d \<in> set (fs_events st)) \<and>
     (\<forall>e \<in> set (fs_events st).
        e = Reply_parent \<or>
        (\<exists>d off. d < fs_ndups st \<and> (e = Dup_created d off \<or> e = Dup_freed d)))"

definition loop_inv :: "fan_state \<Rightarrow> bool" where
  "loop_inv st \<longleftrightarrow> fan_inv 1 st \<and> Reply_parent \<notin> set (fs_events st)"

definition open_inv :: "fan_state \<Rightarrow> bool" where
  "open_inv st \<longleftrightarrow>
     fan_inv 0 st \<and>
     (if fs_pending st = []
      then (\<exists>pre. fs_events st = pre @ [Reply_parent] \<and> Reply_parent \<notin> set pre)
      else Reply_parent \<notin> set (fs_events st))"

text \<open>
  No duplicate of the request meets a failure of \<^verbatim>\<open>set_nodes\<close>, the one place where
  the common signal routine rejects a request and goes on to relay it.
\<close>

definition set_nodes_succeeds :: "signal_input \<Rightarrow> bool" where
  "set_nodes_succeeds inp = (\<forall>d. set_nodes_rc (si_envs inp d) = 0)"

section \<open>Verified properties\<close>

subsection \<open>Raw-value setters\<close>

text \<open>
  C10.  For a non-null attribute cell and an operator other than \<^verbatim>\<open>SET\<close>, \<^verbatim>\<open>INCR\<close>
  and \<^verbatim>\<open>DECR\<close>, \<^verbatim>\<open>set_attr_c\<close> and \<^verbatim>\<open>set_attr_short\<close> return without any effect:
  the whole cell, its value and its flags (so also the modified and cache markers),
  is as before, and nothing is logged or reported.
\<close>

theorem set_attr_c_short_other_op_no_effect:
  "op \<notin> {SET, INCR, DECR} \<Longrightarrow>
     set_attr_c (Some a) v op = (Some a, []) \<and> set_attr_short (Some a) w op = (Some a, [])"
  by (cases op) (simp_all add: set_attr_c_def set_attr_short_def)

theorem set_attr_c_short_other_op_no_effect_witness:
  "UNSET \<notin> {SET, INCR, DECR} \<and>
   set_attr_c (Some \<lparr>at_flags = 0, at_char = 7, at_short = 9, at_str = None\<rparr>) 3 UNSET =
     (Some \<lparr>at_flags = 0, at_char = 7, at_short = 9, at_str = None\<rparr>, []) \<and>
   set_attr_short (Some \<lparr>at_flags = 0, at_char = 7, at_short = 9, at_str = None\<rparr>) 5 UNSET =
     (Some \<lparr>at_flags = 0, at_char = 7, at_short = 9, at_str = None\<rparr>, [])"
  using set_attr_c_short_other_op_no_effect
          [of UNSET "\<lparr>at_flags = 0, at_char = 7, at_short = 9, at_str = None\<rparr>" 3 5]
  by simp

subsection \<open>GSS wrap followed by an empty unwrap\<close>

lemma pbs_gss_wrap_caches:
  "malloc_cleartext e \<Longrightarrow>
     g_extra (pbs_gss_wrap e (Some y) P) =
       Some (y\<lparr>cleartext := Some P, cleartext_len := length P\<rparr>)"
  by (auto simp: pbs_gss_wrap_def gss_ret_def Let_def split: prod.splits)

lemma pbs_gss_wrap_not_ready:
  "malloc_cleartext e \<Longrightarrow> ready y = 0 \<Longrightarrow>
     g_rc (pbs_gss_wrap e (Some y) P) = PBS_GSS_ERR_INTERNAL \<and>
     g_calls (pbs_gss_wrap e (Some y) P) = []"
  by (simp add: pbs_gss_wrap_def gss_ret_def Let_def)

lemma pbs_gss_unwrap_cached:
  "ready x \<noteq> 0 \<Longrightarrow> confidential x \<noteq> 0 \<Longrightarrow> malloc_data_out e \<Longrightarrow>
   cleartext x = Some P \<Longrightarrow> cleartext_len x = length P \<Longrightarrow>
     pbs_gss_unwrap e (Some x) None 0 =
       gss_ret PBS_GSS_OK (Some (x\<lparr>cleartext := None, cleartext_len := 0\<rparr>))
         (Some P) (Some (length P)) None []"
  by (simp add: pbs_gss_unwrap_def)

lemma pbs_gss_unwrap_empty_cache:
  "ready x \<noteq> 0 \<Longrightarrow> confidential x \<noteq> 0 \<Longrightarrow> cleartext x = None \<Longrightarrow>
     pbs_gss_unwrap e (Some x) None 0 =
       gss_ret PBS_GSS_ERR_INTERNAL (Some x) None None
         (Some ''No cleartext data available in gss auth extra'') []"
  by (simp add: pbs_gss_unwrap_def)

text \<open>
  C4.  On a context that is ready and confidential, with the two allocations
  succeeding: after \<^verbatim>\<open>pbs_gss_wrap\<close> of a plaintext \<open>P\<close> (whatever the wrap itself
  returns), an unwrap with null input of length zero makes no GSS call, returns
  exactly \<open>P\<close> and empties the one-slot cache, and a second such unwrap with no
  wrap in between fails with the internal error and returns nothing.  Moreover
  wrap stores \<open>P\<close> in the cache, replacing what was there, before it looks at the
  ready flag: on a context \<open>y\<close> that is not ready it fails with the internal
  error, makes no GSS call, and the cache holds \<open>P\<close>.
\<close>

theorem gss_wrap_then_empty_unwrap_returns_plaintext:
  assumes "ready x \<noteq> 0" and "confidential x \<noteq> 0"
    and "malloc_cleartext e1" and "malloc_data_out e2"
  shows "(let r1 = pbs_gss_wrap e1 (Some x) P;
              r2 = pbs_gss_unwrap e2 (g_extra r1) None 0;
              r3 = pbs_gss_unwrap e3 (g_extra r2) None 0
          in g_rc r2 = PBS_GSS_OK \<and> g_data_out r2 = Some P \<and> g_len_out r2 = Some (length P) \<and>
             g_calls r2 = [] \<and>
             g_extra r2 = Some (x\<lparr>cleartext := None, cleartext_len := 0\<rparr>) \<and>
             g_rc r3 = PBS_GSS_ERR_INTERNAL \<and> g_data_out r3 = None \<and> g_calls r3 = []) \<and>
         (ready y = 0 \<longrightarrow>
            (let r = pbs_gss_wrap e1 (Some y) P
             in g_rc r = PBS_GSS_ERR_INTERNAL \<and> g_calls r = [] \<and>
                g_extra r = Some (y\<lparr>cleartext := Some P, cleartext_len := length P\<rparr>)))"
proof -
  let ?x1 = "x\<lparr>cleartext := Some P, cleartext_len := length P\<rparr>"
  let ?x2 = "x\<lparr>cleartext := None, cleartext_len := 0\<rparr>"
  have w: "g_extra (pbs_gss_wrap e1 (Some x) P) = Some ?x1"
    using assms(3) by (rule pbs_gss_wrap_caches)
  have u: "pbs_gss_unwrap e2 (Some ?x1) None 0 =
             gss_ret PBS_GSS_OK (Some ?x2) (Some P) (Some (length P)) None []"
    using pbs_gss_unwrap_cached [of ?x1 e2 P] assms by simp
  have v: "pbs_gss_unwrap e3 (Some ?x2) None 0 =
             gss_ret PBS_GSS_ERR_INTERNAL (Some ?x2) None None
               (Some ''No cleartext data available in gss auth extra'') []"
    using pbs_gss_unwrap_empty_cache [of ?x2 e3] assms by simp
  have first: "(let r1 = pbs_gss_wrap e1 (Some x) P;
              r2 = pbs_gss_unwrap e2 (g_extra r1) None 0;
              r3 = pbs_gss_unwrap e3 (g_extra r2) None 0
          in g_rc r2 = PBS_GSS_OK \<and> g_data_out r2 = Some P \<and> g_len_out r2 = Some (length P) \<and>
             g_calls r2 = [] \<and>
             g_extra r2 = Some (x\<lparr>cleartext := None, cleartext_len := 0\<rparr>) \<and>
             g_rc r3 = PBS_GSS_ERR_INTERNAL \<and> g_data_out r3 = None \<and> g_calls r3 = [])"
    by (simp add: Let_def w u v gss_ret_def)
  have second: "ready y = 0 \<longrightarrow>
            (let r = pbs_gss_wrap e1 (Some y) P
             in g_rc r = PBS_GSS_ERR_INTERNAL \<and> g_calls r = [] \<and>
                g_extra r = Some (y\<lparr>cleartext := Some P, cleartext_len := length P\<rparr>))"
    using pbs_gss_wrap_not_ready [of e1 y P] pbs_gss_wrap_caches [of e1 y P] assms(3)
    by (simp add: Let_def)
  from first second show ?thesis by blast
qed

theorem gss_wrap_then_empty_unwrap_returns_plaintext_witness:
  "ready \<lparr>ready = 1, confidential = 1, cleartext = None, cleartext_len = 0\<rparr> \<noteq> 0 \<and>
   confidential \<lparr>ready = 1, confidential = 1, cleartext = None, cleartext_len = 0\<rparr> \<noteq> 0 \<and>
   malloc_cleartext \<lparr>malloc_cleartext = True, malloc_data_out = True,
      gss_wrap_fn = (\<lambda>c d. (True, rev d)), gss_unwrap_fn = (\<lambda>d. (True, rev d)),
      gss_release_ok = True\<rparr> \<and>
   malloc_data_out \<lparr>malloc_cleartext = True, malloc_data_out = True,
      gss_wrap_fn = (\<lambda>c d. (True, rev d)), gss_unwrap_fn = (\<lambda>d. (True, rev d)),
      gss_release_ok = True\<rparr> \<and>
   ready \<lparr>ready = 0, confidential = 1, cleartext = Some [9], cleartext_len = 1\<rparr> = 0 \<and>
   g_data_out (pbs_gss_unwrap \<lparr>malloc_cleartext = True, malloc_data_out = True,
        gss_wrap_fn = (\<lambda>c d. (True, rev d)), gss_unwrap_fn = (\<lambda>d. (True, rev d)),
        gss_release_ok = True\<rparr>
      (g_extra (pbs_gss_wrap \<lparr>malloc_cleartext = True, malloc_data_out = True,
           gss_wrap_fn = (\<lambda>c d. (True, rev d)), gss_unwrap_fn = (\<lambda>d. (True, rev d)),
           gss_release_ok = True\<rparr>
         (Some \<lparr>ready = 1, confidential = 1, cleartext = None, cleartext_len = 0\<rparr>)
         [1, 2, 3])) None 0) = Some [1, 2, 3] \<and>
   g_extra (pbs_gss_wrap \<lparr>malloc_cleartext = True, malloc_data_out = True,
        gss_wrap_fn = (\<lambda>c d. (True, rev d)), gss_unwrap_fn = (\<lambda>d. (True, rev d)),
        gss_release_ok = True\<rparr>
      (Some \<lparr>ready = 0, confidential = 1, cleartext = Some [9], cleartext_len = 1\<rparr>)
      [1, 2, 3]) =
     Some \<lparr>ready = 0, confidential = 1, cleartext = Some [1, 2, 3], cleartext_len = 3\<rparr>"
  using gss_wrap_then_empty_unwrap_returns_plaintext
    [of "\<lparr>ready = 1, confidential = 1, cleartext = None, cleartext_len = 0\<rparr>"
        "\<lparr>malloc_cleartext = True, malloc_data_out = True,
          gss_wrap_fn = (\<lambda>c d. (True, rev d)), gss_unwrap_fn = (\<lambda>d. (True, rev d)),
          gss_release_ok = True\<rparr>"
        "\<lparr>malloc_cleartext = True, malloc_data_out = True,
          gss_wrap_fn = (\<lambda>c d. (True, rev d)), gss_unwrap_fn = (\<lambda>d. (True, rev d)),
          gss_release_ok = True\<rparr>"
        "[1, 2, 3]"
        "\<lparr>malloc_cleartext = True, malloc_data_out = True,
          gss_wrap_fn = (\<lambda>c d. (True, rev d)), gss_unwrap_fn = (\<lambda>d. (True, rev d)),
          gss_release_ok = True\<rparr>"
        "\<lparr>ready = 0, confidential = 1, cleartext = Some [9], cleartext_len = 1\<rparr>"]
  by (simp add: Let_def)

subsection \<open>String subtraction\<close>

lemma shift_left_eq:
  "p + n \<le> length s \<Longrightarrow>
     shift_left s p n = (take p s @ drop (p + n) s, Suc (length s - n))"
proof (induction s p n rule: shift_left.induct)
  case (1 s p nsize)
  show ?case
  proof (cases "p + nsize < length s")
    case True
    let ?s = "s[p := s ! (p + nsize)]"
    have "shift_left ?s (Suc p) nsize =
            (take (Suc p) ?s @ drop (Suc p + nsize) ?s, Suc (length ?s - nsize))"
      using 1 True by simp
    moreover have "take (Suc p) ?s = take p s @ [s ! (p + nsize)]"
      using True by (simp add: take_Suc_conv_app_nth)
    moreover have "drop (Suc p + nsize) ?s = drop (Suc (p + nsize)) s"
      by simp
    moreover have "drop (p + nsize) s = s ! (p + nsize) # drop (Suc (p + nsize)) s"
      using True by (simp add: Cons_nth_drop_Suc)
    ultimately show ?thesis using True by (subst shift_left.simps) simp
  next
    case False
    with 1 show ?thesis by (subst shift_left.simps) simp
  qed
qed

text \<open>
  The scan returns whenever the string to remove is not empty: a removal shortens
  the string, and between two removals the pointer only moves left.
\<close>

lemma decr_scan_returns:
  assumes "b \<noteq> []"
  shows "p \<le> int (length s) \<Longrightarrow> \<exists>r. decr_scan s b p = Some r"
proof (induction "length s" arbitrary: s p rule: less_induct)
  case less
  show ?case using less.prems
  proof (induction "nat (p + 1)" arbitrary: p)
    case 0
    then have "p < 0" by simp
    then show ?case by (subst decr_scan.simps) simp
  next
    case (Suc k)
    then have p0: "0 \<le> p" by simp
    show ?case
    proof (cases "strncmp_eq (drop (nat p) s) b (length b)")
      case False
      have "\<exists>r. decr_scan s b (p - 1) = Some r"
        using Suc by (intro Suc.hyps(1)) auto
      with False p0 show ?thesis by (subst decr_scan.simps) simp
    next
      case True
      then have "take (length b) (drop (nat p) s) = b" by (simp add: strncmp_eq_def)
      then have "length (take (length b) (drop (nat p) s)) = length b" by simp
      then have "length b \<le> length s - nat p" by simp
      moreover have pos: "length b > 0" using assms by simp
      ultimately have le: "nat p + length b \<le> length s" and lt: "nat p < length s"
        using Suc.prems p0 by linarith+
      let ?s = "take (nat p) s @ drop (nat p + length b) s"
      have sh: "shift_left s (nat p) (length b) = (?s, Suc (length s - length b))"
        using le by (rule shift_left_eq)
      have len: "length ?s = length s - length b" using le by simp
      have dec: "length ?s < length s" using len pos lt by linarith
      have "\<exists>r. decr_scan ?s b (int (length s - length b)) = Some r"
        using dec len by (intro less.hyps) simp_all
      with True p0 sh show ?thesis by (subst decr_scan.simps) simp
    qed
  qed
qed

lemma set_str_DECR_returns:
  "at_str new = Some b \<Longrightarrow> at_flags new AND ATR_VFLAG_SET \<noteq> 0 \<Longrightarrow>
     \<exists>a'. set_str ok attr new DECR = Some (0, a')"
proof (cases "at_str attr")
  case None
  assume "at_str new = Some b" "at_flags new AND ATR_VFLAG_SET \<noteq> 0"
  with None show ?thesis by (simp add: set_str_def)
next
  case (Some a)
  assume n: "at_str new = Some b" "at_flags new AND ATR_VFLAG_SET \<noteq> 0"
  show ?thesis
  proof (cases "b = []")
    case True
    with n Some show ?thesis by (simp add: set_str_def)
  next
    case False
    then obtain r where "decr_scan a b (int (length a) - int (length b)) = Some r"
      using decr_scan_returns [of b "int (length a) - int (length b)" a] by auto
    with n Some False show ?thesis by (simp add: set_str_def)
  qed
qed

text \<open>
  What the scan leaves: started where \<^verbatim>\<open>set_str\<close> starts it, it returns a string in
  which the string to remove does not occur any more, at any offset.  So it is not
  one occurrence that is removed: occurrences are removed until none is left.
\<close>

lemma decr_scan_leaves_no_occurrence:
  assumes "b \<noteq> []"
  shows "p \<le> int (length s) \<Longrightarrow>
         \<forall>q. int q > p \<longrightarrow> \<not> strncmp_eq (drop q s) b (length b) \<Longrightarrow>
         \<exists>r. decr_scan s b p = Some r \<and> (\<forall>q. \<not> strncmp_eq (drop q r) b (length b))"
proof (induction "length s" arbitrary: s p rule: less_induct)
  case less
  show ?case using less.prems
  proof (induction "nat (p + 1)" arbitrary: p)
    case 0
    then have "p < 0" by simp
    moreover from this have "\<forall>q. int q > p" by auto
    ultimately show ?case using 0 by (subst decr_scan.simps) simp
  next
    case (Suc k)
    then have p0: "0 \<le> p" by simp
    show ?case
    proof (cases "strncmp_eq (drop (nat p) s) b (length b)")
      case False
      have nom: "\<forall>q. int q > p - 1 \<longrightarrow> \<not> strncmp_eq (drop q s) b (length b)"
      proof (intro allI impI)
        fix q assume "int q > p - 1"
        then have "int q > p \<or> q = nat p" using p0 by linarith
        then show "\<not> strncmp_eq (drop q s) b (length b)" using Suc.prems(2) False by auto
      qed
      have "\<exists>r. decr_scan s b (p - 1) = Some r \<and>
                (\<forall>q. \<not> strncmp_eq (drop q r) b (length b))"
        using Suc nom by (intro Suc.hyps(1)) auto
      with False p0 show ?thesis by (subst decr_scan.simps) simp
    next
      case True
      then have "take (length b) (drop (nat p) s) = b" by (simp add: strncmp_eq_def)
      then have "length (take (length b) (drop (nat p) s)) = length b" by simp
      then have "length b \<le> length s - nat p" by simp
      moreover have pos: "length b > 0" using assms by simp
      ultimately have le: "nat p + length b \<le> length s" and lt: "nat p < length s"
        using Suc.prems p0 by linarith+
      let ?s = "take (nat p) s @ drop (nat p + length b) s"
      have sh: "shift_left s (nat p) (length b) = (?s, Suc (length s - length b))"
        using le by (rule shift_left_eq)
      have len: "length ?s = length s - length b" using le by simp
      have dec: "length ?s < length s" using len pos lt by linarith
      have nom: "\<forall>q. int q > int (length s - length b) \<longrightarrow>
                   \<not> strncmp_eq (drop q ?s) b (length b)"
      proof (intro allI impI)
        fix q assume "int q > int (length s - length b)"
        then have "q > length ?s" using len by simp
        then have d: "drop q ?s = []" by simp
        show "\<not> strncmp_eq (drop q ?s) b (length b)"
          unfolding d using assms by (simp add: strncmp_eq_def)
      qed
      have "\<exists>r. decr_scan ?s b (int (length s - length b)) = Some r \<and>
                (\<forall>q. \<not> strncmp_eq (drop q r) b (length b))"
        using dec len nom by (intro less.hyps) simp_all
      with True p0 sh show ?thesis by (subst decr_scan.simps) simp
    qed
  qed
qed

lemma set_str_DECR_no_occurrence_left:
  assumes "at_str new = Some b" and "b \<noteq> []" and "at_flags new AND ATR_VFLAG_SET \<noteq> 0"
    and "at_str attr = Some a"
  shows "\<exists>attr' r. set_str ok attr new DECR = Some (0, attr') \<and> at_str attr' = Some r \<and>
           (\<forall>q. take (length b) (drop q r) \<noteq> b)"
proof -
  have "\<forall>q. int q > int (length a) - int (length b) \<longrightarrow>
          \<not> strncmp_eq (drop q a) b (length b)"
  proof (intro allI impI)
    fix q assume "int q > int (length a) - int (length b)"
    moreover have "length b > 0" using assms(2) by simp
    ultimately have "length a - q < length b" by linarith
    then have "length (take (length b) (drop q a)) \<noteq> length b" by simp
    then have "take (length b) (drop q a) \<noteq> b" by auto
    then show "\<not> strncmp_eq (drop q a) b (length b)" by (simp add: strncmp_eq_def)
  qed
  with decr_scan_leaves_no_occurrence [OF assms(2), of "int (length a) - int (length b)" a]
  obtain r where s: "decr_scan a b (int (length a) - int (length b)) = Some r"
    and n: "\<forall>q. \<not> strncmp_eq (drop q r) b (length b)"
    by auto
  from n have "\<forall>q. take (length b) (drop q r) \<noteq> b" by (simp add: strncmp_eq_def)
  with s assms show ?thesis by (simp add: set_str_def Let_def)
qed

text \<open>The example of the header comment: a trailing occurrence is stripped.\<close>

lemma set_str_DECR_hello_world:
  "set_str True \<lparr>at_flags = ATR_VFLAG_SET, at_char = 0, at_short = 0,
                   at_str = Some ''hello world''\<rparr>
                \<lparr>at_flags = ATR_VFLAG_SET, at_char = 0, at_short = 0,
                   at_str = Some ''world''\<rparr> DECR =
     Some (0, \<lparr>at_flags = ATR_SET_MOD_MCACHE, at_char = 0, at_short = 0,
                at_str = Some ''hello ''\<rparr>)"
  by code_simp

text \<open>
  C3.  The claim says that \<^verbatim>\<open>DECR\<close> removes the first occurrence met by the
  right-to-left scan and no other.  The loop of \<^verbatim>\<open>set_str\<close> does not stop at the
  first removal: the pointer is left on the new terminator and the scan goes on
  from there, so every occurrence it meets afterwards is removed as well.  With
  \<open>''xabyab''\<close> minus \<open>''ab''\<close> the function yields \<open>''xy''\<close> where the claim yields
  \<open>''xaby''\<close>; with \<open>''abab''\<close> minus \<open>''ab''\<close> it yields the empty string, and
  the cell is marked unset, where the claim yields \<open>''ab''\<close>.
\<close>

theorem set_str_DECR_removes_later_matches_too:
  "set_str True \<lparr>at_flags = ATR_VFLAG_SET, at_char = 0, at_short = 0,
                   at_str = Some ''xabyab''\<rparr>
                \<lparr>at_flags = ATR_VFLAG_SET, at_char = 0, at_short = 0,
                   at_str = Some ''ab''\<rparr> DECR =
     Some (0, \<lparr>at_flags = ATR_SET_MOD_MCACHE, at_char = 0, at_short = 0,
                at_str = Some ''xy''\<rparr>) \<and>
   set_str True \<lparr>at_flags = ATR_SET_MOD_MCACHE, at_char = 0, at_short = 0,
                   at_str = Some ''abab''\<rparr>
                \<lparr>at_flags = ATR_VFLAG_SET, at_char = 0, at_short = 0,
                   at_str = Some ''ab''\<rparr> DECR =
     Some (0, \<lparr>at_flags = ATR_VFLAG_MODIFY OR ATR_VFLAG_MODCACHE, at_char = 0, at_short = 0,
                at_str = Some []\<rparr>)"
  by code_simp

subsection \<open>Top-level request decoder\<close>

lemma PBSE_distinct:
  "PBSE_UNKREQ \<noteq> PBSE_NONE" "PBSE_PROTOCOL \<noteq> PBSE_NONE" "PBSE_UNKREQ \<noteq> PBSE_PROTOCOL"
  "PBSE_PROTOCOL \<noteq> - 1" "PBSE_UNKREQ \<noteq> - 1" "- 1 \<noteq> PBSE_PROTOCOL"
  by (simp_all add: PBSE_UNKREQ_def PBSE_NONE_def PBSE_PROTOCOL_def)

lemma decode_default_label:
  "hdr_rc w = PBSE_NONE \<Longrightarrow> hdr_proto_type w = ProtType_Batch K \<Longrightarrow>
   hdr_proto_ver w \<le> PBS_BATCH_PROT_VER K \<Longrightarrow>
   body_codec mom (hdr_rq_type w) = Default_label \<Longrightarrow>
     wire_decode_batch_request K mom w = (PBSE_UNKREQ, [Dec_hdr])"
  by (simp add: wire_decode_batch_request_def PBSE_distinct)

lemma decode_body:
  "hdr_rc w = PBSE_NONE \<Longrightarrow> hdr_proto_type w = ProtType_Batch K \<Longrightarrow>
   hdr_proto_ver w \<le> PBS_BATCH_PROT_VER K \<Longrightarrow>
   body_codec mom (hdr_rq_type w) = Body c \<Longrightarrow>
     wire_decode_batch_request K mom w =
       (if body_rc w c = PBSE_NONE
        then (if extend_rc w = PBSE_NONE then PBSE_NONE else PBSE_PROTOCOL,
              [Dec_hdr, Dec_body c, Dec_extend])
        else if body_rc w c = PBSE_UNKREQ then (PBSE_UNKREQ, [Dec_hdr, Dec_body c])
        else (PBSE_PROTOCOL, [Dec_hdr, Dec_body c]))"
  by (simp add: wire_decode_batch_request_def)

lemma decode_no_body:
  "hdr_rc w = PBSE_NONE \<Longrightarrow> hdr_proto_type w = ProtType_Batch K \<Longrightarrow>
   hdr_proto_ver w \<le> PBS_BATCH_PROT_VER K \<Longrightarrow>
   body_codec mom (hdr_rq_type w) = No_body \<Longrightarrow>
     wire_decode_batch_request K mom w =
       (if extend_rc w = PBSE_NONE then PBSE_NONE else PBSE_PROTOCOL, [Dec_hdr, Dec_extend])"
  by (simp add: wire_decode_batch_request_def)

lemma decode_end_of_file:
  "hdr_rc w = PBSE_NONE \<Longrightarrow> hdr_proto_type w = ProtType_Batch K \<Longrightarrow>
   hdr_proto_ver w \<le> PBS_BATCH_PROT_VER K \<Longrightarrow>
   body_codec mom (hdr_rq_type w) = End_of_file \<Longrightarrow>
     wire_decode_batch_request K mom w = (- 1, [Dec_hdr])"
  by (simp add: wire_decode_batch_request_def)

text \<open>
  \<^verbatim>\<open>Connect\<close> is the one type whose case label decodes no body, and \<^verbatim>\<open>Disconnect\<close>
  the one that returns at once, in either build.
\<close>

lemma body_codec_Connect_Disconnect:
  "body_codec mom t = No_body \<longleftrightarrow> t = PBS_BATCH_Connect"
  "body_codec mom t = End_of_file \<longleftrightarrow> t = PBS_BATCH_Disconnect"
  by (cases t; simp add: body_codec_def)+

lemma decode_result_codes:
  "fst (wire_decode_batch_request K mom w) \<in> {PBSE_NONE, - 1, PBSE_UNKREQ, PBSE_PROTOCOL}"
  by (auto simp: wire_decode_batch_request_def Let_def split: body_step.splits)

text \<open>
  C5, as stated, fails for a body codec that itself fails with the
  unknown-request code: the type has a codec, the body is decoded, and the code is
  returned as it is, not as the protocol-error code (the test after the switch is
  \<^verbatim>\<open>else if (rc != PBSE_UNKREQ)\<close>).
\<close>

theorem body_codec_unknown_request_passed_through:
  "body_codec False PBS_BATCH_SignalJob = Body Req_signaljob \<and>
   wire_decode_batch_request
     \<lparr>ProtType_Batch = 1, PBS_BATCH_PROT_TYPE = 2, PBS_BATCH_PROT_VER = 1\<rparr> False
     \<lparr>hdr_rc = 0, hdr_rq_type = PBS_BATCH_SignalJob, hdr_proto_type = 1, hdr_proto_ver = 1,
     body_rc = (\<lambda>c. PBSE_UNKREQ), extend_rc = 0\<rparr> =
       (PBSE_UNKREQ, [Dec_hdr, Dec_body Req_signaljob]) \<and>
   PBSE_UNKREQ \<noteq> PBSE_NONE \<and> PBSE_UNKREQ \<noteq> PBSE_PROTOCOL"
  by (simp add: wire_decode_batch_request_def body_codec_def PBSE_NONE_def PBSE_UNKREQ_def
        PBSE_PROTOCOL_def)

text \<open>
  C5, amended.  With a well-formed header (the header decodes, the protocol type
  is the receiver's, the version is not above the receiver's), the request type
  decides, and every type is of one of four kinds.  A type that takes the
  \<^verbatim>\<open>default\<close> label, that is, one for which no codec is compiled in, gives the
  unknown-request code, which differs from the protocol-error code and from
  success, and neither a body nor the extension is decoded.  For a type with a
  codec \<open>c\<close>, exactly that codec is called: after its success the extension is
  decoded, and a failure of the extension gives the protocol-error code; a
  failure of the body codec with the unknown-request code is returned as it is,
  and a failure with any other code gives the protocol-error code, in both cases
  with no extension decoded.  \<^verbatim>\<open>Connect\<close> has no body: the extension is decoded, and
  its failure gives the protocol-error code.  \<^verbatim>\<open>Disconnect\<close> returns -1 with
  nothing decoded after the header.
\<close>

theorem wire_decode_unknown_type_and_codec_failures:
  assumes "hdr_rc w = PBSE_NONE" and "hdr_proto_type w = ProtType_Batch K"
    and "hdr_proto_ver w \<le> PBS_BATCH_PROT_VER K"
  shows "(body_codec mom (hdr_rq_type w) = Default_label \<longrightarrow>
            wire_decode_batch_request K mom w = (PBSE_UNKREQ, [Dec_hdr])) \<and>
         (body_codec mom (hdr_rq_type w) = Body c \<longrightarrow>
            wire_decode_batch_request K mom w =
              (if body_rc w c = PBSE_NONE
               then (if extend_rc w = PBSE_NONE then PBSE_NONE else PBSE_PROTOCOL,
                     [Dec_hdr, Dec_body c, Dec_extend])
               else if body_rc w c = PBSE_UNKREQ then (PBSE_UNKREQ, [Dec_hdr, Dec_body c])
               else (PBSE_PROTOCOL, [Dec_hdr, Dec_body c]))) \<and>
         (hdr_rq_type w = PBS_BATCH_Connect \<longrightarrow>
            wire_decode_batch_request K mom w =
              (if extend_rc w = PBSE_NONE then PBSE_NONE else PBSE_PROTOCOL,
               [Dec_hdr, Dec_extend])) \<and>
         (hdr_rq_type w = PBS_BATCH_Disconnect \<longrightarrow>
            wire_decode_batch_request K mom w = (- 1, [Dec_hdr])) \<and>
         (body_codec mom (hdr_rq_type w) = Default_label \<or>
          (\<exists>c. body_codec mom (hdr_rq_type w) = Body c) \<or>
          hdr_rq_type w = PBS_BATCH_Connect \<or> hdr_rq_type w = PBS_BATCH_Disconnect) \<and>
         PBSE_UNKREQ \<noteq> PBSE_PROTOCOL \<and> PBSE_UNKREQ \<noteq> PBSE_NONE \<and>
         PBSE_PROTOCOL \<noteq> PBSE_NONE"
proof -
  have kinds: "body_codec mom (hdr_rq_type w) = Default_label \<or>
          (\<exists>c. body_codec mom (hdr_rq_type w) = Body c) \<or>
          hdr_rq_type w = PBS_BATCH_Connect \<or> hdr_rq_type w = PBS_BATCH_Disconnect"
    using body_codec_Connect_Disconnect [of mom "hdr_rq_type w"]
    by (cases "body_codec mom (hdr_rq_type w)") simp_all
  show ?thesis
    using assms kinds decode_default_label [of w K mom] decode_body [of w K mom c]
      decode_no_body [of w K mom] decode_end_of_file [of w K mom]
      body_codec_Connect_Disconnect [of mom "hdr_rq_type w"] PBSE_distinct
    by blast
qed

theorem wire_decode_unknown_type_and_codec_failures_witness:
  "wire_decode_batch_request
     \<lparr>ProtType_Batch = 1, PBS_BATCH_PROT_TYPE = 2, PBS_BATCH_PROT_VER = 1\<rparr> False
     \<lparr>hdr_rc = 0, hdr_rq_type = PBS_BATCH_Unlisted 999, hdr_proto_type = 1, hdr_proto_ver = 1,
     body_rc = (\<lambda>c. 0), extend_rc = 0\<rparr> =
       (PBSE_UNKREQ, [Dec_hdr]) \<and>
   wire_decode_batch_request
     \<lparr>ProtType_Batch = 1, PBS_BATCH_PROT_TYPE = 2, PBS_BATCH_PROT_VER = 1\<rparr> False
     \<lparr>hdr_rc = 0, hdr_rq_type = PBS_BATCH_SignalJob, hdr_proto_type = 1, hdr_proto_ver = 1,
     body_rc = (\<lambda>c. 0), extend_rc = 5\<rparr> =
       (PBSE_PROTOCOL, [Dec_hdr, Dec_body Req_signaljob, Dec_extend]) \<and>
   wire_decode_batch_request
     \<lparr>ProtType_Batch = 1, PBS_BATCH_PROT_TYPE = 2, PBS_BATCH_PROT_VER = 1\<rparr> False
     \<lparr>hdr_rc = 0, hdr_rq_type = PBS_BATCH_SignalJob, hdr_proto_type = 1, hdr_proto_ver = 1,
     body_rc = (\<lambda>c. 7), extend_rc = 0\<rparr> =
       (PBSE_PROTOCOL, [Dec_hdr, Dec_body Req_signaljob]) \<and>
   wire_decode_batch_request
     \<lparr>ProtType_Batch = 1, PBS_BATCH_PROT_TYPE = 2, PBS_BATCH_PROT_VER = 1\<rparr> False
     \<lparr>hdr_rc = 0, hdr_rq_type = PBS_BATCH_SignalJob, hdr_proto_type = 1, hdr_proto_ver = 1,
     body_rc = (\<lambda>c. PBSE_UNKREQ), extend_rc = 0\<rparr> =
       (PBSE_UNKREQ, [Dec_hdr, Dec_body Req_signaljob]) \<and>
   wire_decode_batch_request
     \<lparr>ProtType_Batch = 1, PBS_BATCH_PROT_TYPE = 2, PBS_BATCH_PROT_VER = 1\<rparr> False
     \<lparr>hdr_rc = 0, hdr_rq_type = PBS_BATCH_Connect, hdr_proto_type = 1, hdr_proto_ver = 1,
     body_rc = (\<lambda>c. 7), extend_rc = 5\<rparr> =
       (PBSE_PROTOCOL, [Dec_hdr, Dec_extend]) \<and>
   wire_decode_batch_request
     \<lparr>ProtType_Batch = 1, PBS_BATCH_PROT_TYPE = 2, PBS_BATCH_PROT_VER = 1\<rparr> False
     \<lparr>hdr_rc = 0, hdr_rq_type = PBS_BATCH_Disconnect, hdr_proto_type = 1, hdr_proto_ver = 1,
     body_rc = (\<lambda>c. 0), extend_rc = 0\<rparr> =
       (- 1, [Dec_hdr])"
  using
    wire_decode_unknown_type_and_codec_failures
      [of "\<lparr>hdr_rc = 0, hdr_rq_type = PBS_BATCH_Unlisted 999, hdr_proto_type = 1, hdr_proto_ver = 1,
          body_rc = (\<lambda>c. 0), extend_rc = 0\<rparr>"
          "\<lparr>ProtType_Batch = 1, PBS_BATCH_PROT_TYPE = 2, PBS_BATCH_PROT_VER = 1\<rparr>"
          False Req_signaljob]
    wire_decode_unknown_type_and_codec_failures
      [of "\<lparr>hdr_rc = 0, hdr_rq_type = PBS_BATCH_SignalJob, hdr_proto_type = 1, hdr_proto_ver = 1,
          body_rc = (\<lambda>c. 0), extend_rc = 5\<rparr>"
          "\<lparr>ProtType_Batch = 1, PBS_BATCH_PROT_TYPE = 2, PBS_BATCH_PROT_VER = 1\<rparr>"
          False Req_signaljob]
    wire_decode_unknown_type_and_codec_failures
      [of "\<lparr>hdr_rc = 0, hdr_rq_type = PBS_BATCH_SignalJob, hdr_proto_type = 1, hdr_proto_ver = 1,
          body_rc = (\<lambda>c. 7), extend_rc = 0\<rparr>"
          "\<lparr>ProtType_Batch = 1, PBS_BATCH_PROT_TYPE = 2, PBS_BATCH_PROT_VER = 1\<rparr>"
          False Req_signaljob]
    wire_decode_unknown_type_and_codec_failures
      [of "\<lparr>hdr_rc = 0, hdr_rq_type = PBS_BATCH_SignalJob, hdr_proto_type = 1, hdr_proto_ver = 1,
          body_rc = (\<lambda>c. PBSE_UNKREQ), extend_rc = 0\<rparr>"
          "\<lparr>ProtType_Batch = 1, PBS_BATCH_PROT_TYPE = 2, PBS_BATCH_PROT_VER = 1\<rparr>"
          False Req_signaljob]
    wire_decode_unknown_type_and_codec_failures
      [of "\<lparr>hdr_rc = 0, hdr_rq_type = PBS_BATCH_Connect, hdr_proto_type = 1, hdr_proto_ver = 1,
          body_rc = (\<lambda>c. 7), extend_rc = 5\<rparr>"
          "\<lparr>ProtType_Batch = 1, PBS_BATCH_PROT_TYPE = 2, PBS_BATCH_PROT_VER = 1\<rparr>"
          False Req_signaljob]
    wire_decode_unknown_type_and_codec_failures
      [of "\<lparr>hdr_rc = 0, hdr_rq_type = PBS_BATCH_Disconnect, hdr_proto_type = 1, hdr_proto_ver = 1,
          body_rc = (\<lambda>c. 0), extend_rc = 0\<rparr>"
          "\<lparr>ProtType_Batch = 1, PBS_BATCH_PROT_TYPE = 2, PBS_BATCH_PROT_VER = 1\<rparr>"
          False Req_signaljob]
  by (simp add: body_codec_def PBSE_NONE_def PBSE_UNKREQ_def PBSE_PROTOCOL_def)

subsection \<open>Protocol type and version in the header\<close>

text \<open>
  C6, as stated, fails for the request decoder: a header whose version is below
  the receiver's \<^verbatim>\<open>PBS_BATCH_PROT_VER\<close> does not match it, and is accepted.
\<close>

theorem request_version_below_maximum_accepted:
  "hdr_proto_ver \<lparr>hdr_rc = 0, hdr_rq_type = PBS_BATCH_SignalJob, hdr_proto_type = 1,
        hdr_proto_ver = 0, body_rc = (\<lambda>c. 0), extend_rc = 0\<rparr> \<noteq>
     PBS_BATCH_PROT_VER \<lparr>ProtType_Batch = 1, PBS_BATCH_PROT_TYPE = 2, PBS_BATCH_PROT_VER = 1\<rparr> \<and>
   wire_decode_batch_request
     \<lparr>ProtType_Batch = 1, PBS_BATCH_PROT_TYPE = 2, PBS_BATCH_PROT_VER = 1\<rparr> False
     \<lparr>hdr_rc = 0, hdr_rq_type = PBS_BATCH_SignalJob, hdr_proto_type = 1, hdr_proto_ver = 0,
        body_rc = (\<lambda>c. 0), extend_rc = 0\<rparr> =
       (PBSE_NONE, [Dec_hdr, Dec_body Req_signaljob, Dec_extend])"
  by (simp add: wire_decode_batch_request_def body_codec_def PBSE_NONE_def)

text \<open>
  C6, amended.  The request decoder returns the protocol error, decoding nothing
  after the header, when the header does not decode, when its protocol type
  differs from the receiver's constant, or when its version is greater than the
  receiver's maximum; a header with the receiver's type and a version up to the
  maximum is not rejected at the header.  The reply decoder of the stream
  transport returns the protocol failure \<^verbatim>\<open>DIS_PROTO\<close>, without decoding the
  reply, when the type it read differs from the receiver's constant, and when the
  version it read differs from the receiver's version.
\<close>

theorem protocol_header_mismatch_rejected:
  "(hdr_rc w \<noteq> PBSE_NONE \<or> hdr_proto_type w \<noteq> ProtType_Batch K \<or>
      hdr_proto_ver w > PBS_BATCH_PROT_VER K \<longrightarrow>
      wire_decode_batch_request K mom w = (PBSE_PROTOCOL, [Dec_hdr])) \<and>
   (hdr_rc w = PBSE_NONE \<and> hdr_proto_type w = ProtType_Batch K \<and>
      hdr_proto_ver w \<le> PBS_BATCH_PROT_VER K \<longrightarrow>
      wire_decode_batch_request K mom w \<noteq> (PBSE_PROTOCOL, [Dec_hdr])) \<and>
   (rp_type_rc r = 0 \<and> rp_type r \<noteq> PBS_BATCH_PROT_TYPE K \<longrightarrow>
      decode_DIS_replySvr K r = (DIS_PROTO, False)) \<and>
   (rp_type_rc r = 0 \<and> rp_type r = PBS_BATCH_PROT_TYPE K \<and> rp_ver_rc r = 0 \<and>
      rp_ver r \<noteq> PBS_BATCH_PROT_VER K \<longrightarrow>
      decode_DIS_replySvr K r = (DIS_PROTO, False))"
proof -
  have a: "hdr_rc w \<noteq> PBSE_NONE \<or> hdr_proto_type w \<noteq> ProtType_Batch K \<or>
      hdr_proto_ver w > PBS_BATCH_PROT_VER K \<longrightarrow>
      wire_decode_batch_request K mom w = (PBSE_PROTOCOL, [Dec_hdr])"
    by (auto simp: wire_decode_batch_request_def)
  have b: "hdr_rc w = PBSE_NONE \<and> hdr_proto_type w = ProtType_Batch K \<and>
      hdr_proto_ver w \<le> PBS_BATCH_PROT_VER K \<longrightarrow>
      wire_decode_batch_request K mom w \<noteq> (PBSE_PROTOCOL, [Dec_hdr])"
    by (auto simp: wire_decode_batch_request_def Let_def PBSE_distinct
             split: body_step.splits)
  have c: "rp_type_rc r = 0 \<and> rp_type r \<noteq> PBS_BATCH_PROT_TYPE K \<longrightarrow>
      decode_DIS_replySvr K r = (DIS_PROTO, False)"
    by (simp add: decode_DIS_replySvr_def)
  have d: "rp_type_rc r = 0 \<and> rp_type r = PBS_BATCH_PROT_TYPE K \<and> rp_ver_rc r = 0 \<and>
      rp_ver r \<noteq> PBS_BATCH_PROT_VER K \<longrightarrow>
      decode_DIS_replySvr K r = (DIS_PROTO, False)"
    by (simp add: decode_DIS_replySvr_def)
  from a b c d show ?thesis by blast
qed

theorem protocol_header_mismatch_rejected_witness:
  "wire_decode_batch_request
     \<lparr>ProtType_Batch = 1, PBS_BATCH_PROT_TYPE = 2, PBS_BATCH_PROT_VER = 1\<rparr> False
     \<lparr>hdr_rc = 0, hdr_rq_type = PBS_BATCH_SignalJob, hdr_proto_type = 1, hdr_proto_ver = 2,
        body_rc = (\<lambda>c. 0), extend_rc = 0\<rparr> = (PBSE_PROTOCOL, [Dec_hdr]) \<and>
   wire_decode_batch_request
     \<lparr>ProtType_Batch = 1, PBS_BATCH_PROT_TYPE = 2, PBS_BATCH_PROT_VER = 1\<rparr> False
     \<lparr>hdr_rc = 0, hdr_rq_type = PBS_BATCH_SignalJob, hdr_proto_type = 1, hdr_proto_ver = 0,
        body_rc = (\<lambda>c. 0), extend_rc = 0\<rparr> \<noteq> (PBSE_PROTOCOL, [Dec_hdr]) \<and>
   decode_DIS_replySvr
     \<lparr>ProtType_Batch = 1, PBS_BATCH_PROT_TYPE = 2, PBS_BATCH_PROT_VER = 1\<rparr>
     \<lparr>rp_type = 3, rp_type_rc = 0, rp_ver = 1, rp_ver_rc = 0, rp_inner_rc = 0\<rparr> =
       (DIS_PROTO, False) \<and>
   decode_DIS_replySvr
     \<lparr>ProtType_Batch = 1, PBS_BATCH_PROT_TYPE = 2, PBS_BATCH_PROT_VER = 1\<rparr>
     \<lparr>rp_type = 2, rp_type_rc = 0, rp_ver = 0, rp_ver_rc = 0, rp_inner_rc = 0\<rparr> =
       (DIS_PROTO, False)"
  using
    protocol_header_mismatch_rejected
      [of "\<lparr>hdr_rc = 0, hdr_rq_type = PBS_BATCH_SignalJob, hdr_proto_type = 1,
             hdr_proto_ver = 2, body_rc = (\<lambda>c. 0), extend_rc = 0\<rparr>"
          "\<lparr>ProtType_Batch = 1, PBS_BATCH_PROT_TYPE = 2, PBS_BATCH_PROT_VER = 1\<rparr>" False
          "\<lparr>rp_type = 3, rp_type_rc = 0, rp_ver = 1, rp_ver_rc = 0, rp_inner_rc = 0\<rparr>"]
    protocol_header_mismatch_rejected
      [of "\<lparr>hdr_rc = 0, hdr_rq_type = PBS_BATCH_SignalJob, hdr_proto_type = 1,
             hdr_proto_ver = 0, body_rc = (\<lambda>c. 0), extend_rc = 0\<rparr>"
          "\<lparr>ProtType_Batch = 1, PBS_BATCH_PROT_TYPE = 2, PBS_BATCH_PROT_VER = 1\<rparr>" False
          "\<lparr>rp_type = 2, rp_type_rc = 0, rp_ver = 0, rp_ver_rc = 0, rp_inner_rc = 0\<rparr>"]
  by (simp add: PBSE_NONE_def)

subsection \<open>Provider registry\<close>

lemma priv_load_auth_registry:
  "loaded_auths (snd (priv_load_auth env name st)) = loaded_auths st"
  by (simp add: priv_load_auth_def Let_def split: option.splits)

lemma priv_load_auth_name:
  "priv_load_auth env name st = (Some a, st1) \<Longrightarrow> ad_name a = take (MAXAUTHNAME env) name"
  by (auto simp: priv_load_auth_def Let_def split: option.splits if_splits)

lemma get_auth_hit:
  "find (\<lambda>a. ad_name a = method) (loaded_auths st) = Some a \<Longrightarrow>
     get_auth env method st = (Some a, st)"
  by (simp add: get_auth_def)

lemma get_auth_cached_after:
  assumes "get_auth env method st = (Some a, st1)"
    and "length method \<le> MAXAUTHNAME env"
  shows "find (\<lambda>a. ad_name a = method) (loaded_auths st1) = Some a"
proof (cases "find (\<lambda>a. ad_name a = method) (loaded_auths st)")
  case (Some b)
  with assms(1) show ?thesis by (simp add: get_auth_def)
next
  case None
  obtain r st' where l: "priv_load_auth env method st = (r, st')"
    by (cases "priv_load_auth env method st")
  with None assms(1) have r: "r = Some a" and s: "st1 = st'\<lparr>loaded_auths := a # loaded_auths st'\<rparr>"
    by (auto simp: get_auth_def split: option.splits)
  from l r have "ad_name a = take (MAXAUTHNAME env) method"
    by (simp add: priv_load_auth_name)
  with assms(2) have "ad_name a = method" by simp
  with s show ?thesis by simp
qed

lemma get_auth_registry:
  "\<exists>new. loaded_auths (snd (get_auth env method st)) = new @ loaded_auths st"
proof (cases "find (\<lambda>a. ad_name a = method) (loaded_auths st)")
  case (Some b)
  then show ?thesis by (simp add: get_auth_def)
next
  case None
  obtain r st' where l: "priv_load_auth env method st = (r, st')"
    by (cases "priv_load_auth env method st")
  then have "loaded_auths st' = loaded_auths st"
    using priv_load_auth_registry [of env "method" st] by simp
  with None l show ?thesis
    by (cases r) (simp_all add: get_auth_def)
qed

lemma is_valid_encrypt_method_registry:
  "loaded_auths (snd (is_valid_encrypt_method env method st)) = loaded_auths st"
proof -
  obtain r st' where l: "priv_load_auth env method st = (r, st')"
    by (cases "priv_load_auth env method st")
  then have "loaded_auths st' = loaded_auths st"
    using priv_load_auth_registry [of env "method" st] by simp
  with l show ?thesis
    by (cases r) (simp_all add: is_valid_encrypt_method_def)
qed

lemma priv_load_auth_attempt:
  assumes "name \<noteq> AUTH_RESVPORT_NAME" and "calloc_ok env"
  shows "dlopen_calls (snd (priv_load_auth env name st)) =
           dlopen_calls st @
           [take (MAXPATHLEN env - 1) (pbs_exec_path env @ ''/lib/libauth_'' @ name @ ''.so'')]"
  using assms by (simp add: priv_load_auth_def Let_def split: option.splits)

lemma get_auth_None_missed:
  assumes "fst (get_auth env method st) = None"
  shows "find (\<lambda>a. ad_name a = method) (loaded_auths st) = None \<and>
         get_auth env method st = (None, snd (priv_load_auth env method st))"
proof (cases "find (\<lambda>a. ad_name a = method) (loaded_auths st)")
  case (Some b)
  with assms show ?thesis by (simp add: get_auth_def)
next
  case None
  obtain r st' where l: "priv_load_auth env method st = (r, st')"
    by (cases "priv_load_auth env method st")
  with None assms show ?thesis
    by (cases r) (simp_all add: get_auth_def)
qed

lemma get_auth_miss_attempt:
  assumes "find (\<lambda>a. ad_name a = method) (loaded_auths st) = None"
    and "method \<noteq> AUTH_RESVPORT_NAME" and "calloc_ok env"
  shows "dlopen_calls (snd (get_auth env method st)) =
           dlopen_calls st @
           [take (MAXPATHLEN env - 1) (pbs_exec_path env @ ''/lib/libauth_'' @ method @ ''.so'')]"
proof -
  obtain r st' where l: "priv_load_auth env method st = (r, st')"
    by (cases "priv_load_auth env method st")
  with priv_load_auth_attempt [OF assms(2,3), of st]
  have "dlopen_calls st' = dlopen_calls st @
           [take (MAXPATHLEN env - 1) (pbs_exec_path env @ ''/lib/libauth_'' @ method @ ''.so'')]"
    by simp
  with assms(1) l show ?thesis
    by (cases r) (simp_all add: get_auth_def)
qed

lemma get_auth_failed_load_repeated:
  assumes "method \<noteq> AUTH_RESVPORT_NAME" and "calloc_ok env" and "calloc_ok env'"
    and "fst (get_auth env method st) = None"
  shows "loaded_auths (snd (get_auth env method st)) = loaded_auths st \<and>
         dlopen_calls (snd (get_auth env' method (snd (get_auth env method st)))) =
           dlopen_calls st @
           [take (MAXPATHLEN env - 1) (pbs_exec_path env @ ''/lib/libauth_'' @ method @ ''.so''),
            take (MAXPATHLEN env' - 1)
              (pbs_exec_path env' @ ''/lib/libauth_'' @ method @ ''.so'')]"
proof -
  from get_auth_None_missed [OF assms(4)]
  have m: "find (\<lambda>a. ad_name a = method) (loaded_auths st) = None"
    and g: "get_auth env method st = (None, snd (priv_load_auth env method st))"
    by simp_all
  have r: "loaded_auths (snd (get_auth env method st)) = loaded_auths st"
    using g priv_load_auth_registry [of env "method" st] by simp
  have d1: "dlopen_calls (snd (get_auth env method st)) =
           dlopen_calls st @
           [take (MAXPATHLEN env - 1) (pbs_exec_path env @ ''/lib/libauth_'' @ method @ ''.so'')]"
    by (rule get_auth_miss_attempt [OF m assms(1,2)])
  have m': "find (\<lambda>a. ad_name a = method) (loaded_auths (snd (get_auth env method st))) = None"
    using m r by simp
  have d2: "dlopen_calls (snd (get_auth env' method (snd (get_auth env method st)))) =
           dlopen_calls (snd (get_auth env method st)) @
           [take (MAXPATHLEN env' - 1)
              (pbs_exec_path env' @ ''/lib/libauth_'' @ method @ ''.so'')]"
    by (rule get_auth_miss_attempt [OF m' assms(1,3)])
  from r d1 d2 show ?thesis by simp
qed

lemma unload_auths_registry: "loaded_auths (unload_auths st) = []"
  by (simp add: unload_auths_def)

lemma get_auth_registry_snd:
  "get_auth env method st = (r, st1) \<Longrightarrow> \<exists>new. loaded_auths st1 = new @ loaded_auths st"
  using get_auth_registry [of env "method" st] by simp

lemma priv_load_auth_registry_snd:
  "priv_load_auth env name st = (r, st1) \<Longrightarrow> loaded_auths st1 = loaded_auths st"
  using priv_load_auth_registry [of env name st] by simp

lemma load_supported_registry:
  "(fst (load_supported env ms st) = 0 \<longrightarrow>
      (\<exists>new. loaded_auths (snd (load_supported env ms st)) = new @ loaded_auths st)) \<and>
   (fst (load_supported env ms st) \<noteq> 0 \<longrightarrow>
      fst (load_supported env ms st) = 1 \<and>
      loaded_auths (snd (load_supported env ms st)) = [] \<and>
      (\<exists>name st'. name \<in> set ms \<and> fst (priv_load_auth env name st') = None))"
proof (induction ms arbitrary: st)
  case Nil
  show ?case by simp
next
  case (Cons m ms)
  show ?case
  proof (cases "m = AUTH_RESVPORT_NAME")
    case True
    with Cons.IH [of st] show ?thesis by auto
  next
    case False
    obtain r st1 where g: "get_auth env m st = (r, st1)" by (cases "get_auth env m st")
    from get_auth_registry_snd [OF g] obtain new1 where
      n1: "loaded_auths st1 = new1 @ loaded_auths st" by blast
    show ?thesis
    proof (cases r)
      case (Some a)
      with False g have e: "load_supported env (m # ms) st = load_supported env ms st1"
        by simp
      from Cons.IH [of st1] n1 show ?thesis unfolding e by auto
    next
      case None
      obtain r2 st2 where p: "priv_load_auth env m st1 = (r2, st2)"
        by (cases "priv_load_auth env m st1")
      from priv_load_auth_registry_snd [OF p] n1
      have n2: "loaded_auths st2 = new1 @ loaded_auths st" by simp
      show ?thesis
      proof (cases r2)
        case None2: None
        with None False g p
        have e: "load_supported env (m # ms) st = (1, unload_auths st2)" by simp
        have "fst (priv_load_auth env m st1) = None" using p None2 by simp
        then have "\<exists>name st'. name \<in> set (m # ms) \<and> fst (priv_load_auth env name st') = None"
          by (intro exI [of _ m] exI [of _ st1]) simp
        then show ?thesis unfolding e by (simp add: unload_auths_registry)
      next
        case (Some a)
        with None False g p
        have e: "load_supported env (m # ms) st =
                   load_supported env ms (st2\<lparr>loaded_auths := a # loaded_auths st2\<rparr>)"
          by simp
        from Cons.IH [of "st2\<lparr>loaded_auths := a # loaded_auths st2\<rparr>"] n2
        show ?thesis unfolding e by auto
      qed
    qed
  qed
qed


lemma load_auths_registry:
  "(fst (load_auths env server st) = 0 \<longrightarrow>
      (\<exists>new. loaded_auths (snd (load_auths env server st)) = new @ loaded_auths st)) \<and>
   (fst (load_auths env server st) \<noteq> 0 \<longrightarrow>
      fst (load_auths env server st) = 1 \<and>
      loaded_auths (snd (load_auths env server st)) = [] \<and>
      (\<exists>name st'. name \<in> set (conf_auth_method env # conf_encrypt_method env #
                                 conf_supported_auth_methods env) \<and>
                   fst (priv_load_auth env name st') = None))"
proof (cases "loaded_auths st = []")
  case False
  then show ?thesis by (simp add: load_auths_def)
next
  case empty: True
  obtain ok1 st1 where s1: "(if conf_auth_method env \<noteq> AUTH_RESVPORT_NAME
               then (case priv_load_auth env (conf_auth_method env) st of
                       (None, st1) \<Rightarrow> (False, st1)
                     | (Some a, st1) \<Rightarrow> (True, st1\<lparr>loaded_auths := [a]\<rparr>))
               else (True, st)) = (ok1, st1)"
    by (cases "(if conf_auth_method env \<noteq> AUTH_RESVPORT_NAME
               then (case priv_load_auth env (conf_auth_method env) st of
                       (None, st1) \<Rightarrow> (False, st1)
                     | (Some a, st1) \<Rightarrow> (True, st1\<lparr>loaded_auths := [a]\<rparr>))
               else (True, st))")
  show ?thesis
  proof (cases ok1)
    case False
    with s1 empty have e: "load_auths env server st = (1, st1)"
      by (simp add: load_auths_def)
    from s1 False have f: "fst (priv_load_auth env (conf_auth_method env) st) = None"
      and r: "st1 = snd (priv_load_auth env (conf_auth_method env) st)"
      by (auto split: if_splits prod.splits option.splits)
    from r empty have "loaded_auths st1 = []" by (simp add: priv_load_auth_registry)
    moreover from f have "\<exists>name st'. name \<in> set (conf_auth_method env # conf_encrypt_method env #
                                 conf_supported_auth_methods env) \<and>
                   fst (priv_load_auth env name st') = None"
      by (intro exI [of _ "conf_auth_method env"] exI [of _ st]) simp
    ultimately show ?thesis unfolding e by simp
  next
    case ok1: True
    obtain ok2 st2 where s2: "(if conf_encrypt_method env \<noteq> [] \<and>
                       conf_auth_method env \<noteq> conf_encrypt_method env
                    then (case priv_load_auth env (conf_encrypt_method env) st1 of
                            (None, st2) \<Rightarrow> (False, unload_auths st2)
                          | (Some a, st2) \<Rightarrow>
                              (True, st2\<lparr>loaded_auths := a # loaded_auths st2\<rparr>))
                    else (True, st1)) = (ok2, st2)"
      by (cases "(if conf_encrypt_method env \<noteq> [] \<and>
                       conf_auth_method env \<noteq> conf_encrypt_method env
                    then (case priv_load_auth env (conf_encrypt_method env) st1 of
                            (None, st2) \<Rightarrow> (False, unload_auths st2)
                          | (Some a, st2) \<Rightarrow>
                              (True, st2\<lparr>loaded_auths := a # loaded_auths st2\<rparr>))
                    else (True, st1))")
    show ?thesis
    proof (cases ok2)
      case False
      with s1 s2 ok1 empty have e: "load_auths env server st = (1, st2)"
        by (simp add: load_auths_def)
      from s2 False have f: "fst (priv_load_auth env (conf_encrypt_method env) st1) = None"
        and r: "st2 = unload_auths (snd (priv_load_auth env (conf_encrypt_method env) st1))"
        by (auto split: if_splits prod.splits option.splits)
      from r have "loaded_auths st2 = []" by (simp add: unload_auths_registry)
      moreover from f have "\<exists>name st'. name \<in> set (conf_auth_method env #
                                 conf_encrypt_method env # conf_supported_auth_methods env) \<and>
                   fst (priv_load_auth env name st') = None"
        by (intro exI [of _ "conf_encrypt_method env"] exI [of _ st1]) simp
      ultimately show ?thesis unfolding e by simp
    next
      case ok2: True
      from s1 s2 ok1 ok2 empty
      have e: "load_auths env server st =
                 (if server then load_supported env (conf_supported_auth_methods env) st2
                  else (0, st2))"
        by (simp add: load_auths_def)
      from empty have base: "\<And>s. \<exists>new. loaded_auths s = new @ loaded_auths st" by simp
      show ?thesis
      proof (cases server)
        case False
        with e base [of st2] show ?thesis by simp
      next
        case True
        with e have e': "load_auths env server st =
                           load_supported env (conf_supported_auth_methods env) st2"
          by simp
        from load_supported_registry [of env "conf_supported_auth_methods env" st2]
          base [of "snd (load_supported env (conf_supported_auth_methods env) st2)"]
        show ?thesis unfolding e' by auto
      qed
    qed
  qed
qed

lemma is_valid_encrypt_method_unloads:
  assumes "fst (priv_load_auth env method st) = Some a"
  shows "dlclose_calls (snd (is_valid_encrypt_method env method st)) =
           dlclose_calls st @ [ad_lib_handle a]"
proof -
  obtain st1 where l: "priv_load_auth env method st = (Some a, st1)"
    using assms by (cases "priv_load_auth env method st") simp
  then have "dlclose_calls st1 = dlclose_calls st"
    by (auto simp: priv_load_auth_def Let_def split: option.splits if_splits)
  with l show ?thesis by (simp add: is_valid_encrypt_method_def)
qed

text \<open>
  C7, as stated, fails for a method whose library cannot be loaded: nothing is
  cached by the first call, and the second call tries the load again.
\<close>

theorem get_auth_failed_load_is_repeated:
  "''munge'' \<noteq> AUTH_RESVPORT_NAME \<and>
   fst (get_auth
          \<lparr>pbs_exec_path = ''/opt/pbs'', conf_auth_method = ''resvport'',
             conf_encrypt_method = [], conf_supported_auth_methods = [],
             MAXAUTHNAME = 100, MAXPATHLEN = 1024, calloc_ok = True, dlopen = Map.empty\<rparr>
          ''munge''
          (snd (get_auth
                  \<lparr>pbs_exec_path = ''/opt/pbs'', conf_auth_method = ''resvport'',
                     conf_encrypt_method = [], conf_supported_auth_methods = [],
                     MAXAUTHNAME = 100, MAXPATHLEN = 1024, calloc_ok = True,
                     dlopen = Map.empty\<rparr>
                  ''munge''
                  \<lparr>loaded_auths = [], dlopen_calls = [], dlclose_calls = [],
                     heap_next = 0\<rparr>))) = None \<and>
   dlopen_calls
     (snd (get_auth
          \<lparr>pbs_exec_path = ''/opt/pbs'', conf_auth_method = ''resvport'',
             conf_encrypt_method = [], conf_supported_auth_methods = [],
             MAXAUTHNAME = 100, MAXPATHLEN = 1024, calloc_ok = True, dlopen = Map.empty\<rparr>
          ''munge''
          (snd (get_auth
                  \<lparr>pbs_exec_path = ''/opt/pbs'', conf_auth_method = ''resvport'',
                     conf_encrypt_method = [], conf_supported_auth_methods = [],
                     MAXAUTHNAME = 100, MAXPATHLEN = 1024, calloc_ok = True,
                     dlopen = Map.empty\<rparr>
                  ''munge''
                  \<lparr>loaded_auths = [], dlopen_calls = [], dlclose_calls = [],
                     heap_next = 0\<rparr>)))) =
     [''/opt/pbs/lib/libauth_munge.so'', ''/opt/pbs/lib/libauth_munge.so'']"
  by (simp add: get_auth_def priv_load_auth_def AUTH_RESVPORT_NAME_def)

text \<open>
  C7, amended.  When a call of \<^verbatim>\<open>get_auth\<close> with a method name of at most
  \<^verbatim>\<open>MAXAUTHNAME\<close> characters returns a definition, a second call with the same name
  that follows it returns the same definition (the same structure at the same
  address) and leaves the whole state as it is, so no library is loaded and
  nothing is allocated, whatever the environment of the second call.  When a call
  for a name other than the reserved-port one returns no definition although the
  allocation succeeds, nothing is cached, and a second call that follows it, its
  allocation succeeding too, passes the library path to \<^verbatim>\<open>dlopen\<close> again.  A
  definition, once cached, leaves the registry only at teardown or on a load
  failure: \<^verbatim>\<open>get_auth\<close> and a \<^verbatim>\<open>load_auths\<close> that returns 0 leave the registry as it
  was, with at most new entries in front; \<^verbatim>\<open>is_valid_encrypt_method\<close> leaves it as
  it was, and closes the library of the definition it loaded for itself; a
  \<^verbatim>\<open>load_auths\<close> that does not return 0 returns 1 and leaves the registry empty, and
  then \<^verbatim>\<open>_load_auth\<close> returns null for one of the configured methods;
  \<^verbatim>\<open>unload_auths\<close> empties the registry.
\<close>

theorem get_auth_second_call_cached:
  "(get_auth env method st = (Some a, st1) \<and> length method \<le> MAXAUTHNAME env \<longrightarrow>
      get_auth env' method st1 = (Some a, st1)) \<and>
   (method \<noteq> AUTH_RESVPORT_NAME \<and> calloc_ok env \<and> calloc_ok env' \<and>
    fst (get_auth env method st) = None \<longrightarrow>
      loaded_auths (snd (get_auth env method st)) = loaded_auths st \<and>
      dlopen_calls (snd (get_auth env' method (snd (get_auth env method st)))) =
        dlopen_calls st @
        [take (MAXPATHLEN env - 1) (pbs_exec_path env @ ''/lib/libauth_'' @ method @ ''.so''),
         take (MAXPATHLEN env' - 1)
           (pbs_exec_path env' @ ''/lib/libauth_'' @ method @ ''.so'')]) \<and>
   (\<exists>new. loaded_auths (snd (get_auth env method st)) = new @ loaded_auths st) \<and>
   loaded_auths (snd (is_valid_encrypt_method env method st)) = loaded_auths st \<and>
   (fst (priv_load_auth env method st) = Some b \<longrightarrow>
      dlclose_calls (snd (is_valid_encrypt_method env method st)) =
        dlclose_calls st @ [ad_lib_handle b]) \<and>
   (fst (load_auths env server st) = 0 \<longrightarrow>
      (\<exists>new. loaded_auths (snd (load_auths env server st)) = new @ loaded_auths st)) \<and>
   (fst (load_auths env server st) \<noteq> 0 \<longrightarrow>
      fst (load_auths env server st) = 1 \<and>
      loaded_auths (snd (load_auths env server st)) = [] \<and>
      (\<exists>name st'. name \<in> set (conf_auth_method env # conf_encrypt_method env #
                                 conf_supported_auth_methods env) \<and>
                   fst (priv_load_auth env name st') = None)) \<and>
   loaded_auths (unload_auths st) = []"
proof -
  have a: "get_auth env method st = (Some a, st1) \<and> length method \<le> MAXAUTHNAME env \<longrightarrow>
      get_auth env' method st1 = (Some a, st1)"
    using get_auth_cached_after [of env "method" st a st1] get_auth_hit [of "method" st1 a env']
    by blast
  have b: "method \<noteq> AUTH_RESVPORT_NAME \<and> calloc_ok env \<and> calloc_ok env' \<and>
    fst (get_auth env method st) = None \<longrightarrow>
      loaded_auths (snd (get_auth env method st)) = loaded_auths st \<and>
      dlopen_calls (snd (get_auth env' method (snd (get_auth env method st)))) =
        dlopen_calls st @
        [take (MAXPATHLEN env - 1) (pbs_exec_path env @ ''/lib/libauth_'' @ method @ ''.so''),
         take (MAXPATHLEN env' - 1)
           (pbs_exec_path env' @ ''/lib/libauth_'' @ method @ ''.so'')]"
    using get_auth_failed_load_repeated [of "method" env env' st] by blast
  have c: "fst (priv_load_auth env method st) = Some b \<longrightarrow>
      dlclose_calls (snd (is_valid_encrypt_method env method st)) =
        dlclose_calls st @ [ad_lib_handle b]"
    using is_valid_encrypt_method_unloads [of env "method" st b] by blast
  from a b c get_auth_registry [of env "method" st]
    is_valid_encrypt_method_registry [of env "method" st]
    load_auths_registry [of env server st] unload_auths_registry [of st]
  show ?thesis by (intro conjI) simp_all
qed

theorem get_auth_second_call_cached_witness:
  "get_auth
     \<lparr>pbs_exec_path = ''/opt/pbs'', conf_auth_method = ''munge'',
     conf_encrypt_method = [], conf_supported_auth_methods = [],
     MAXAUTHNAME = 100, MAXPATHLEN = 1024, calloc_ok = True,
     dlopen = [''/opt/pbs/lib/libauth_munge.so'' \<mapsto>
                 \<lparr>lib_handle = 7, lib_sym = (\<lambda>s. Some 1)\<rparr>]\<rparr>
     ''munge''
     \<lparr>loaded_auths = [], dlopen_calls = [], dlclose_calls = [], heap_next = 0\<rparr> =
     (Some \<lparr>ad_addr = 0, ad_name = ''munge'', ad_lib_handle = 7, ad_set_config = Some 1,
           ad_create_ctx = Some 1, ad_destroy_ctx = Some 1, ad_get_userinfo = Some 1,
           ad_process_handshake_data = Some 1, ad_encrypt_data = Some 1,
           ad_decrypt_data = Some 1\<rparr>,
      \<lparr>loaded_auths =
        [\<lparr>ad_addr = 0, ad_name = ''munge'', ad_lib_handle = 7, ad_set_config = Some 1,
            ad_create_ctx = Some 1, ad_destroy_ctx = Some 1, ad_get_userinfo = Some 1,
            ad_process_handshake_data = Some 1, ad_encrypt_data = Some 1,
            ad_decrypt_data = Some 1\<rparr>],
      dlopen_calls = [''/opt/pbs/lib/libauth_munge.so''], dlclose_calls = [],
      heap_next = 1\<rparr>) \<and>
   length ''munge'' \<le> (100 :: nat) \<and>
   get_auth
     \<lparr>pbs_exec_path = ''/opt/pbs'', conf_auth_method = ''munge'',
     conf_encrypt_method = [], conf_supported_auth_methods = [],
     MAXAUTHNAME = 100, MAXPATHLEN = 1024, calloc_ok = False,
     dlopen = Map.empty\<rparr>
     ''munge''
     \<lparr>loaded_auths =
       [\<lparr>ad_addr = 0, ad_name = ''munge'', ad_lib_handle = 7, ad_set_config = Some 1,
           ad_create_ctx = Some 1, ad_destroy_ctx = Some 1, ad_get_userinfo = Some 1,
           ad_process_handshake_data = Some 1, ad_encrypt_data = Some 1,
           ad_decrypt_data = Some 1\<rparr>],
     dlopen_calls = [''/opt/pbs/lib/libauth_munge.so''], dlclose_calls = [],
     heap_next = 1\<rparr> =
     (Some \<lparr>ad_addr = 0, ad_name = ''munge'', ad_lib_handle = 7, ad_set_config = Some 1,
           ad_create_ctx = Some 1, ad_destroy_ctx = Some 1, ad_get_userinfo = Some 1,
           ad_process_handshake_data = Some 1, ad_encrypt_data = Some 1,
           ad_decrypt_data = Some 1\<rparr>,
      \<lparr>loaded_auths =
        [\<lparr>ad_addr = 0, ad_name = ''munge'', ad_lib_handle = 7, ad_set_config = Some 1,
            ad_create_ctx = Some 1, ad_destroy_ctx = Some 1, ad_get_userinfo = Some 1,
            ad_process_handshake_data = Some 1, ad_encrypt_data = Some 1,
            ad_decrypt_data = Some 1\<rparr>],
      dlopen_calls = [''/opt/pbs/lib/libauth_munge.so''], dlclose_calls = [],
      heap_next = 1\<rparr>) \<and>
   ''munge'' \<noteq> AUTH_RESVPORT_NAME \<and>
   fst (get_auth
          \<lparr>pbs_exec_path = ''/opt/pbs'', conf_auth_method = ''munge'',
          conf_encrypt_method = [], conf_supported_auth_methods = [],
          MAXAUTHNAME = 100, MAXPATHLEN = 1024, calloc_ok = True,
          dlopen = Map.empty\<rparr>
          ''munge''
          \<lparr>loaded_auths = [], dlopen_calls = [], dlclose_calls = [], heap_next = 0\<rparr>) = None \<and>
   dlopen_calls
     (snd (get_auth
             \<lparr>pbs_exec_path = ''/opt/pbs'', conf_auth_method = ''munge'',
             conf_encrypt_method = [], conf_supported_auth_methods = [],
             MAXAUTHNAME = 100, MAXPATHLEN = 1024, calloc_ok = True,
             dlopen = Map.empty\<rparr>
             ''munge''
             (snd (get_auth
                     \<lparr>pbs_exec_path = ''/opt/pbs'', conf_auth_method = ''munge'',
                     conf_encrypt_method = [], conf_supported_auth_methods = [],
                     MAXAUTHNAME = 100, MAXPATHLEN = 1024, calloc_ok = True,
                     dlopen = Map.empty\<rparr>
                     ''munge''
                     \<lparr>loaded_auths = [], dlopen_calls = [], dlclose_calls = [], heap_next = 0\<rparr>)))) =
     [''/opt/pbs/lib/libauth_munge.so'', ''/opt/pbs/lib/libauth_munge.so''] \<and>
   dlclose_calls
     (snd (is_valid_encrypt_method
             \<lparr>pbs_exec_path = ''/opt/pbs'', conf_auth_method = ''munge'',
             conf_encrypt_method = [], conf_supported_auth_methods = [],
             MAXAUTHNAME = 100, MAXPATHLEN = 1024, calloc_ok = True,
             dlopen = [''/opt/pbs/lib/libauth_munge.so'' \<mapsto>
                         \<lparr>lib_handle = 7, lib_sym = (\<lambda>s. Some 1)\<rparr>]\<rparr>
             ''munge''
             \<lparr>loaded_auths = [], dlopen_calls = [], dlclose_calls = [], heap_next = 0\<rparr>)) = [7] \<and>
   load_auths
     \<lparr>pbs_exec_path = ''/opt/pbs'', conf_auth_method = ''munge'',
     conf_encrypt_method = [], conf_supported_auth_methods = [],
     MAXAUTHNAME = 100, MAXPATHLEN = 1024, calloc_ok = True,
     dlopen = [''/opt/pbs/lib/libauth_munge.so'' \<mapsto>
                 \<lparr>lib_handle = 7, lib_sym = (\<lambda>s. Some 1)\<rparr>]\<rparr>
     False
     \<lparr>loaded_auths = [], dlopen_calls = [], dlclose_calls = [], heap_next = 0\<rparr> =
     (0, \<lparr>loaded_auths =
           [\<lparr>ad_addr = 0, ad_name = ''munge'', ad_lib_handle = 7, ad_set_config = Some 1,
               ad_create_ctx = Some 1, ad_destroy_ctx = Some 1, ad_get_userinfo = Some 1,
               ad_process_handshake_data = Some 1, ad_encrypt_data = Some 1,
               ad_decrypt_data = Some 1\<rparr>],
         dlopen_calls = [''/opt/pbs/lib/libauth_munge.so''], dlclose_calls = [],
         heap_next = 1\<rparr>) \<and>
   load_auths
     \<lparr>pbs_exec_path = ''/opt/pbs'', conf_auth_method = ''munge'',
     conf_encrypt_method = [], conf_supported_auth_methods = [],
     MAXAUTHNAME = 100, MAXPATHLEN = 1024, calloc_ok = True,
     dlopen = Map.empty\<rparr>
     False
     \<lparr>loaded_auths = [], dlopen_calls = [], dlclose_calls = [], heap_next = 0\<rparr> =
     (1, \<lparr>loaded_auths = [], dlopen_calls = [''/opt/pbs/lib/libauth_munge.so''], dlclose_calls = [],
           heap_next = 1\<rparr>)"
  using
    get_auth_second_call_cached
      [of "\<lparr>pbs_exec_path = ''/opt/pbs'', conf_auth_method = ''munge'',
          conf_encrypt_method = [], conf_supported_auth_methods = [],
          MAXAUTHNAME = 100, MAXPATHLEN = 1024, calloc_ok = True,
          dlopen = [''/opt/pbs/lib/libauth_munge.so'' \<mapsto>
                      \<lparr>lib_handle = 7, lib_sym = (\<lambda>s. Some 1)\<rparr>]\<rparr>"
          "''munge''"
          "\<lparr>loaded_auths = [], dlopen_calls = [], dlclose_calls = [], heap_next = 0\<rparr>"
          "\<lparr>ad_addr = 0, ad_name = ''munge'', ad_lib_handle = 7, ad_set_config = Some 1,
          ad_create_ctx = Some 1, ad_destroy_ctx = Some 1, ad_get_userinfo = Some 1,
          ad_process_handshake_data = Some 1, ad_encrypt_data = Some 1,
          ad_decrypt_data = Some 1\<rparr>"
          "\<lparr>loaded_auths =
            [\<lparr>ad_addr = 0, ad_name = ''munge'', ad_lib_handle = 7, ad_set_config = Some 1,
                ad_create_ctx = Some 1, ad_destroy_ctx = Some 1, ad_get_userinfo = Some 1,
                ad_process_handshake_data = Some 1, ad_encrypt_data = Some 1,
                ad_decrypt_data = Some 1\<rparr>],
          dlopen_calls = [''/opt/pbs/lib/libauth_munge.so''], dlclose_calls = [],
          heap_next = 1\<rparr>"
          "\<lparr>pbs_exec_path = ''/opt/pbs'', conf_auth_method = ''munge'',
          conf_encrypt_method = [], conf_supported_auth_methods = [],
          MAXAUTHNAME = 100, MAXPATHLEN = 1024, calloc_ok = False,
          dlopen = Map.empty\<rparr>"
          "\<lparr>ad_addr = 0, ad_name = ''munge'', ad_lib_handle = 7, ad_set_config = Some 1,
          ad_create_ctx = Some 1, ad_destroy_ctx = Some 1, ad_get_userinfo = Some 1,
          ad_process_handshake_data = Some 1, ad_encrypt_data = Some 1,
          ad_decrypt_data = Some 1\<rparr>"
          False]
    get_auth_second_call_cached
      [of "\<lparr>pbs_exec_path = ''/opt/pbs'', conf_auth_method = ''munge'',
          conf_encrypt_method = [], conf_supported_auth_methods = [],
          MAXAUTHNAME = 100, MAXPATHLEN = 1024, calloc_ok = True,
          dlopen = Map.empty\<rparr>"
          "''munge''"
          "\<lparr>loaded_auths = [], dlopen_calls = [], dlclose_calls = [], heap_next = 0\<rparr>"
          "\<lparr>ad_addr = 0, ad_name = ''munge'', ad_lib_handle = 7, ad_set_config = Some 1,
          ad_create_ctx = Some 1, ad_destroy_ctx = Some 1, ad_get_userinfo = Some 1,
          ad_process_handshake_data = Some 1, ad_encrypt_data = Some 1,
          ad_decrypt_data = Some 1\<rparr>"
          "\<lparr>loaded_auths =
            [\<lparr>ad_addr = 0, ad_name = ''munge'', ad_lib_handle = 7, ad_set_config = Some 1,
                ad_create_ctx = Some 1, ad_destroy_ctx = Some 1, ad_get_userinfo = Some 1,
                ad_process_handshake_data = Some 1, ad_encrypt_data = Some 1,
                ad_decrypt_data = Some 1\<rparr>],
          dlopen_calls = [''/opt/pbs/lib/libauth_munge.so''], dlclose_calls = [],
          heap_next = 1\<rparr>"
          "\<lparr>pbs_exec_path = ''/opt/pbs'', conf_auth_method = ''munge'',
          conf_encrypt_method = [], conf_supported_auth_methods = [],
          MAXAUTHNAME = 100, MAXPATHLEN = 1024, calloc_ok = True,
          dlopen = Map.empty\<rparr>"
          "\<lparr>ad_addr = 0, ad_name = ''munge'', ad_lib_handle = 7, ad_set_config = Some 1,
          ad_create_ctx = Some 1, ad_destroy_ctx = Some 1, ad_get_userinfo = Some 1,
          ad_process_handshake_data = Some 1, ad_encrypt_data = Some 1,
          ad_decrypt_data = Some 1\<rparr>"
          False]
  by (simp add: get_auth_def priv_load_auth_def AUTH_RESVPORT_NAME_def load_auths_def
        is_valid_encrypt_method_def unload_auths_def)

subsection \<open>Shell resolution\<close>

lemma set_shell_loop_shell:
  "fst (set_shell_loop h es sh) =
     (case find (shell_host_matches h) es of
        Some e \<Rightarrow> shell_name e
      | None \<Rightarrow> (case filter shell_unqualified es of [] \<Rightarrow> sh | u # us \<Rightarrow> last (u # us)))"
proof (induction es arbitrary: sh)
  case Nil
  then show ?case by simp
next
  case (Cons e es)
  show ?case
  proof (cases "strchr e CHR ''@''")
    case None
    then have m: "\<not> shell_host_matches h e" and u: "shell_unqualified e"
      by (simp_all add: shell_host_matches_def shell_unqualified_def)
    have step: "fst (set_shell_loop h (e # es) sh) = fst (set_shell_loop h es e)"
      using None by (simp split: prod.splits)
    show ?thesis
      unfolding step Cons [of e] using m u
      by (simp split: option.splits list.splits)
  next
    case (Some k)
    then have u: "\<not> shell_unqualified e"
      by (simp add: shell_unqualified_def)
    show ?thesis
    proof (cases "shell_host_matches h e")
      case True
      with Some have "fst (set_shell_loop h (e # es) sh) = shell_name e"
        by (simp add: shell_host_matches_def shell_name_def)
      with True show ?thesis by simp
    next
      case False
      with Some have step: "fst (set_shell_loop h (e # es) sh) = fst (set_shell_loop h es sh)"
        by (simp add: shell_host_matches_def split: prod.splits)
      show ?thesis
        unfolding step Cons [of sh] using False u
        by (simp split: option.splits)
    qed
  qed
qed

text \<open>
  C8, as stated, fails when the list has more than one unqualified entry and no
  entry for this host: the last unqualified entry is returned, not the first.
\<close>

theorem set_shell_two_unqualified_entries:
  "find (shell_host_matches ''node1'') [''/bin/sh'', ''/bin/csh''] = None \<and>
   filter shell_unqualified [''/bin/sh'', ''/bin/csh''] = [''/bin/sh'', ''/bin/csh''] \<and>
   fst (set_shell ''node1'' True (Some [''/bin/sh'', ''/bin/csh'']) ''/bin/bash'') = ''/bin/csh''"
  by (simp add: set_shell_def shell_host_matches_def shell_unqualified_def)

text \<open>
  C8, amended.  For a job whose \<^verbatim>\<open>Shell_Path_List\<close> attribute is set, shell
  resolution returns the name part (the text before the \<open>@\<close>) of the first entry
  whose host suffix matches this execution host, the match being a comparison
  over the length of the suffix; if no entry matches it returns the last
  unqualified entry of the list; if there is no unqualified entry either, or the
  attribute is not set or has no entries, it returns the login shell.
\<close>

theorem set_shell_resolution:
  "fst (set_shell mom_host True (Some es) pw_shell) =
     (case find (shell_host_matches mom_host) es of
        Some e \<Rightarrow> shell_name e
      | None \<Rightarrow> (case filter shell_unqualified es of
                   [] \<Rightarrow> pw_shell
                 | u # us \<Rightarrow> last (u # us))) \<and>
   fst (set_shell mom_host False vstrs pw_shell) = pw_shell \<and>
   fst (set_shell mom_host is_set None pw_shell) = pw_shell \<and>
   fst (set_shell mom_host is_set (Some []) pw_shell) = pw_shell"
proof -
  have "fst (set_shell mom_host True (Some es) pw_shell) =
          fst (set_shell_loop mom_host es pw_shell)"
    by (simp add: set_shell_def split: prod.splits)
  then have a: "fst (set_shell mom_host True (Some es) pw_shell) =
     (case find (shell_host_matches mom_host) es of
        Some e \<Rightarrow> shell_name e
      | None \<Rightarrow> (case filter shell_unqualified es of
                   [] \<Rightarrow> pw_shell
                 | u # us \<Rightarrow> last (u # us)))"
    by (simp only: set_shell_loop_shell)
  have b: "fst (set_shell mom_host False vstrs pw_shell) = pw_shell"
    by (simp add: set_shell_def split: option.splits)
  have c: "fst (set_shell mom_host is_set None pw_shell) = pw_shell"
    by (simp add: set_shell_def)
  have d: "fst (set_shell mom_host is_set (Some []) pw_shell) = pw_shell"
    by (simp add: set_shell_def)
  from a b c d show ?thesis by blast
qed

subsection \<open>Early rejection in the per-connection entry point\<close>



subsection \<open>Resume of a suspended job\<close>








subsection \<open>Fan-out and the aggregated reply\<close>

lemma route_signal_append:
  "route_signal env d (xs @ ys) st = route_signal env d ys (route_signal env d xs st)"
  by (induction xs arbitrary: st) simp_all

lemma route_relay_tail:
  "route_signal env d (relay_tail env r) st =
     (if relay_to_mom_rc env = 0 then st\<lparr>fs_pending := fs_pending st @ [d]\<rparr>
      else free_br d st)"
  by (simp add: relay_tail_def)

text \<open>
  Unless \<^verbatim>\<open>set_nodes\<close> fails, the common signal routine ends a request in one
  of two ways: the request is answered or rejected once, and freed, with no
  relay outstanding; or it is relayed and left to the relay's completion.
\<close>

lemma req_signaljob2_routes:
  assumes "exec_vnode_deallocated pjob = None \<or> set_nodes_rc env = 0"
  shows "route_signal env d (snd (snd (req_signaljob2 env preq pjob))) st = free_br d st \<or>
         route_signal env d (snd (snd (req_signaljob2 env preq pjob))) st =
           st\<lparr>fs_pending := fs_pending st @ [d]\<rparr>"
  using assms
  by (auto simp: req_signaljob2_def Let_def route_signal_append route_relay_tail
           split: option.splits)

lemma dup_step_relayed:
  assumes "loop_inv st"
  shows "loop_inv (st\<lparr>rq_refct := rq_refct st + 1, fs_ndups := Suc (fs_ndups st),
            fs_events := fs_events st @ [Dup_created (fs_ndups st) off],
            fs_pending := fs_pending st @ [fs_ndups st]\<rparr>)"
proof -
  from assms have "fs_ndups st \<notin> set (fs_pending st)"
    by (auto simp: loop_inv_def fan_inv_def)
  with assms show ?thesis
    unfolding loop_inv_def fan_inv_def
    by (auto simp: less_Suc_eq)
qed

lemma dup_step_inline:
  assumes "loop_inv st"
  shows "loop_inv (free_br (fs_ndups st)
           (st\<lparr>rq_refct := rq_refct st + 1, fs_ndups := Suc (fs_ndups st),
               fs_events := fs_events st @ [Dup_created (fs_ndups st) off]\<rparr>))"
proof -
  from assms have pos: "rq_refct st \<ge> 1"
    by (simp add: loop_inv_def fan_inv_def)
  then have eq: "free_br (fs_ndups st)
           (st\<lparr>rq_refct := rq_refct st + 1, fs_ndups := Suc (fs_ndups st),
               fs_events := fs_events st @ [Dup_created (fs_ndups st) off]\<rparr>) =
      st\<lparr>rq_refct := rq_refct st, fs_ndups := Suc (fs_ndups st),
         fs_events := fs_events st @ [Dup_created (fs_ndups st) off, Dup_freed (fs_ndups st)]\<rparr>"
    by (simp add: free_br_def Let_def)
  from assms show ?thesis
    unfolding eq loop_inv_def fan_inv_def
    by (auto simp: less_Suc_eq)
qed

lemma dup_br_for_subjob_loop_inv:
  assumes "loop_inv st" and "\<forall>d. set_nodes_rc (envs d) = 0"
  shows "loop_inv (dup_br_for_subjob alloc_ok envs preq pjob off st)"
proof (cases "alloc_ok (fs_ndups st)")
  case False
  with assms show ?thesis by (simp add: dup_br_for_subjob_def)
next
  case True
  let ?d = "fs_ndups st"
  let ?st1 = "st\<lparr>rq_refct := rq_refct st + 1, fs_ndups := Suc ?d,
                   fs_events := fs_events st @ [Dup_created ?d off]\<rparr>"
  let ?r = "route_signal (envs ?d) ?d (snd (snd (req_signaljob2 (envs ?d) preq pjob))) ?st1"
  have eq: "dup_br_for_subjob alloc_ok envs preq pjob off st = ?r"
    using True by (simp add: dup_br_for_subjob_def Let_def)
  have "?r = free_br ?d ?st1 \<or> ?r = ?st1\<lparr>fs_pending := fs_pending ?st1 @ [?d]\<rparr>"
    using assms(2) by (intro req_signaljob2_routes) simp
  then show ?thesis
  proof
    assume "?r = free_br ?d ?st1"
    with eq dup_step_inline [OF assms(1), of off] show ?thesis by simp
  next
    assume "?r = ?st1\<lparr>fs_pending := fs_pending ?st1 @ [?d]\<rparr>"
    with eq dup_step_relayed [OF assms(1), of off] show ?thesis by simp
  qed
qed

lemma array_loop_loop_inv:
  "loop_inv st \<Longrightarrow> \<forall>d. set_nodes_rc (envs d) = 0 \<Longrightarrow>
     loop_inv (array_loop alloc_ok envs preq suspend resume es i st)"
  by (induction es arbitrary: i st)
     (auto simp: dup_br_for_subjob_loop_inv split: option.splits)

lemma range_for_loop_inv:
  "loop_inv st \<Longrightarrow> \<forall>d. set_nodes_rc (envs d) = 0 \<Longrightarrow>
     loop_inv (range_for alloc_ok envs preq tbl to_off is st)"
  by (induction "is" arbitrary: st)
     (auto simp: dup_br_for_subjob_loop_inv split: option.splits)

lemma range_loop_returns:
  "count_running tbl to_off groups = Some n \<Longrightarrow> loop_inv st \<Longrightarrow>
   \<forall>d. set_nodes_rc (envs d) = 0 \<Longrightarrow>
     \<exists>st'. range_loop alloc_ok envs preq tbl to_off groups True st = Some st' \<and> loop_inv st'"
proof (induction groups arbitrary: n st)
  case Nil
  then show ?case by simp
next
  case (Cons g groups)
  obtain start e step where g: "g = (start, e, step)" by (cases g)
  from Cons.prems(1) g obtain "is" m where
    i: "idx_seq start e step = Some is" and m: "count_running tbl to_off groups = Some m"
    by (auto split: option.splits)
  from Cons.IH [OF m range_for_loop_inv [OF Cons.prems(2) Cons.prems(3)] Cons.prems(3)] g i
  show ?case by simp
qed

lemma loop_end_open_inv:
  assumes "loop_inv st2"
  shows "open_inv (let st3 = st2\<lparr>rq_refct := rq_refct st2 - 1\<rparr>
                   in if rq_refct st3 = 0 then reply_send st3 else st3)"
proof (cases "fs_pending st2 = []")
  case True
  with assms show ?thesis
    by (auto simp: loop_inv_def open_inv_def fan_inv_def reply_send_def Let_def)
next
  case False
  then have "length (fs_pending st2) > 0" by simp
  with assms False show ?thesis
    by (auto simp: loop_inv_def open_inv_def fan_inv_def reply_send_def Let_def)
qed

lemma fresh_incremented_loop_inv:
  "loop_inv (fresh_request\<lparr>rq_refct := rq_refct fresh_request + 1\<rparr>)"
  by (simp add: loop_inv_def fan_inv_def fresh_request_def)

lemma req_signaljob_open_inv:
  assumes "reaches_fan_out inp" and "set_nodes_succeeds inp"
  shows "\<exists>st. req_signaljob inp fresh_request = Some st \<and> open_inv st"
proof (cases "si_jt inp")
  case IS_ARRAY_NO
  with assms(1) show ?thesis by (simp add: reaches_fan_out_def)
next
  case IS_ARRAY_Single
  with assms(1) show ?thesis by (simp add: reaches_fan_out_def)
next
  case IS_ARRAY_ArrayJob
  from assms(2) have sn: "\<forall>d. set_nodes_rc (si_envs inp d) = 0"
    by (simp add: set_nodes_succeeds_def)
  let ?resume = "rq_signame (si_preq inp) = SIG_RESUME \<or>
     rq_signame (si_preq inp) = SIG_ADMIN_RESUME"
  let ?suspend = "\<not> ?resume \<and>
     (rq_signame (si_preq inp) = SIG_SUSPEND \<or> rq_signame (si_preq inp) = SIG_ADMIN_SUSPEND)"
  let ?st2 = "array_loop (si_alloc_ok inp) (si_envs inp) (si_preq inp) ?suspend ?resume
                (si_table inp) 0
                (fresh_request\<lparr>rq_refct := rq_refct fresh_request + 1\<rparr>)"
  have "loop_inv ?st2"
    by (rule array_loop_loop_inv [OF fresh_incremented_loop_inv sn])
  then have o: "open_inv (let st3 = ?st2\<lparr>rq_refct := rq_refct ?st2 - 1\<rparr>
                   in if rq_refct st3 = 0 then reply_send st3 else st3)"
    by (rule loop_end_open_inv)
  have "req_signaljob inp fresh_request =
          Some (let st3 = ?st2\<lparr>rq_refct := rq_refct ?st2 - 1\<rparr>
                in if rq_refct st3 = 0 then reply_send st3 else st3)"
    using assms(1) IS_ARRAY_ArrayJob
    by (auto simp: req_signaljob_def reaches_fan_out_def Let_def)
  with o show ?thesis by simp
next
  case IS_ARRAY_Range
  with assms(1) obtain groups n where
    r: "si_range inp = Some (groups, True)" and
    c: "count_running (si_table inp) (si_to_offset inp) groups = Some n" and n: "n \<noteq> 0"
    by (auto simp: reaches_fan_out_def split: option.splits)
  from assms(2) have sn: "\<forall>d. set_nodes_rc (si_envs inp d) = 0"
    by (simp add: set_nodes_succeeds_def)
  from range_loop_returns [OF c fresh_incremented_loop_inv sn]
  obtain st2 where
    l: "range_loop (si_alloc_ok inp) (si_envs inp) (si_preq inp) (si_table inp)
          (si_to_offset inp) groups True
          (fresh_request\<lparr>rq_refct := rq_refct fresh_request + 1\<rparr>) = Some st2"
    and i: "loop_inv st2"
    by blast
  from i have o: "open_inv (let st3 = st2\<lparr>rq_refct := rq_refct st2 - 1\<rparr>
                   in if rq_refct st3 = 0 then reply_send st3 else st3)"
    by (rule loop_end_open_inv)
  have "req_signaljob inp fresh_request =
          Some (let st3 = st2\<lparr>rq_refct := rq_refct st2 - 1\<rparr>
                in if rq_refct st3 = 0 then reply_send st3 else st3)"
    using assms(1) IS_ARRAY_Range r c n l
    by (auto simp: req_signaljob_def reaches_fan_out_def Let_def)
  with o show ?thesis by simp
qed

lemma open_invI:
  assumes "rq_refct st = int (length (fs_pending st))"
    and "distinct (fs_pending st)"
    and "\<And>d. d \<in> set (fs_pending st) \<Longrightarrow> d < fs_ndups st"
    and "\<And>d. d < fs_ndups st \<Longrightarrow> d \<in> set (fs_pending st) \<or> Dup_freed d \<in> set (fs_events st)"
    and "\<And>e. e \<in> set (fs_events st) \<Longrightarrow>
           e = Reply_parent \<or>
           (\<exists>d off. d < fs_ndups st \<and> (e = Dup_created d off \<or> e = Dup_freed d))"
    and "fs_pending st = [] \<Longrightarrow>
           \<exists>pre. fs_events st = pre @ [Reply_parent] \<and> Reply_parent \<notin> set pre"
    and "fs_pending st \<noteq> [] \<Longrightarrow> Reply_parent \<notin> set (fs_events st)"
  shows "open_inv st"
  unfolding open_inv_def fan_inv_def using assms by simp

lemma open_invD:
  assumes "open_inv st"
  shows "rq_refct st = int (length (fs_pending st))"
    and "distinct (fs_pending st)"
    and "\<And>d. d \<in> set (fs_pending st) \<Longrightarrow> d < fs_ndups st"
    and "\<And>d. d < fs_ndups st \<Longrightarrow> d \<in> set (fs_pending st) \<or> Dup_freed d \<in> set (fs_events st)"
    and "\<And>e. e \<in> set (fs_events st) \<Longrightarrow>
           e = Reply_parent \<or>
           (\<exists>d off. d < fs_ndups st \<and> (e = Dup_created d off \<or> e = Dup_freed d))"
    and "fs_pending st = [] \<Longrightarrow>
           \<exists>pre. fs_events st = pre @ [Reply_parent] \<and> Reply_parent \<notin> set pre"
    and "fs_pending st \<noteq> [] \<Longrightarrow> Reply_parent \<notin> set (fs_events st)"
  using assms unfolding open_inv_def fan_inv_def by simp_all

lemma complete_dup_open_inv:
  assumes "open_inv st"
  shows "open_inv (complete_dup st d)"
proof (cases "d \<in> set (fs_pending st)")
  case False
  with assms show ?thesis by (simp add: complete_dup_def)
next
  case True
  note inv = open_invD [OF assms]
  from True have ne: "fs_pending st \<noteq> []" by auto
  from True have pos: "length (fs_pending st) > 0" by (cases "fs_pending st") auto
  from True inv(2) have len:
    "length (removeAll d (fs_pending st)) = length (fs_pending st) - 1"
    by (simp add: distinct_remove1_removeAll [symmetric] length_remove1)
  have norep: "Reply_parent \<notin> set (fs_events st)" using inv(7) ne by simp
  have dlt: "d < fs_ndups st" using inv(3) True by simp
  show ?thesis
  proof (cases "removeAll d (fs_pending st) = []")
    case e: True
    with len have "length (fs_pending st) - 1 = 0" by simp
    with pos have "length (fs_pending st) = 1" by linarith
    with inv(1) have one: "rq_refct st = 1" by simp
    have eq: "complete_dup st d =
        st\<lparr>fs_pending := [], fs_events := fs_events st @ [Dup_freed d, Reply_parent],
           rq_refct := 0\<rparr>"
      using True e one by (simp add: complete_dup_def free_br_def reply_send_def Let_def)
    have only: "\<And>x. x \<in> set (fs_pending st) \<Longrightarrow> x = d"
    proof -
      fix x assume "x \<in> set (fs_pending st)"
      then have "x = d \<or> x \<in> set (removeAll d (fs_pending st))" by auto
      with e show "x = d" by simp
    qed
    show ?thesis
      unfolding eq
    proof (rule open_invI)
      fix x assume "x < fs_ndups (st\<lparr>fs_pending := [],
          fs_events := fs_events st @ [Dup_freed d, Reply_parent], rq_refct := 0\<rparr>)"
      then have "x < fs_ndups st" by simp
      then have "x \<in> set (fs_pending st) \<or> Dup_freed x \<in> set (fs_events st)"
        by (rule inv(4))
      then have "Dup_freed x \<in> set (fs_events st @ [Dup_freed d, Reply_parent])"
        using only [of x] by auto
      then show "x \<in> set (fs_pending (st\<lparr>fs_pending := [],
            fs_events := fs_events st @ [Dup_freed d, Reply_parent], rq_refct := 0\<rparr>)) \<or>
          Dup_freed x \<in> set (fs_events (st\<lparr>fs_pending := [],
            fs_events := fs_events st @ [Dup_freed d, Reply_parent], rq_refct := 0\<rparr>))"
        by simp
    next
      fix ev assume "ev \<in> set (fs_events (st\<lparr>fs_pending := [],
          fs_events := fs_events st @ [Dup_freed d, Reply_parent], rq_refct := 0\<rparr>))"
      then have "ev \<in> set (fs_events st) \<or> ev = Dup_freed d \<or> ev = Reply_parent" by auto
      then have "ev = Reply_parent \<or>
          (\<exists>d' off. d' < fs_ndups st \<and> (ev = Dup_created d' off \<or> ev = Dup_freed d'))"
        using inv(5) [of ev] dlt by blast
      then show "ev = Reply_parent \<or>
          (\<exists>d' off. d' < fs_ndups (st\<lparr>fs_pending := [],
              fs_events := fs_events st @ [Dup_freed d, Reply_parent], rq_refct := 0\<rparr>) \<and>
            (ev = Dup_created d' off \<or> ev = Dup_freed d'))"
        by simp
    next
      have "fs_events st @ [Dup_freed d, Reply_parent] =
              (fs_events st @ [Dup_freed d]) @ [Reply_parent] \<and>
            Reply_parent \<notin> set (fs_events st @ [Dup_freed d])"
        using norep by simp
      then show "\<exists>pre. fs_events (st\<lparr>fs_pending := [],
            fs_events := fs_events st @ [Dup_freed d, Reply_parent], rq_refct := 0\<rparr>) =
              pre @ [Reply_parent] \<and> Reply_parent \<notin> set pre"
        by (intro exI [of _ "fs_events st @ [Dup_freed d]"]) simp
    qed simp_all
  next
    case n: False
    then have "length (removeAll d (fs_pending st)) > 0" by simp
    with len inv(1) have two: "rq_refct st > 1" by simp
    have eq: "complete_dup st d =
        st\<lparr>fs_pending := removeAll d (fs_pending st),
           fs_events := fs_events st @ [Dup_freed d],
           rq_refct := rq_refct st - 1\<rparr>"
      using True two by (simp add: complete_dup_def free_br_def reply_send_def Let_def)
    show ?thesis
      unfolding eq
    proof (rule open_invI)
      show "rq_refct (st\<lparr>fs_pending := removeAll d (fs_pending st),
               fs_events := fs_events st @ [Dup_freed d], rq_refct := rq_refct st - 1\<rparr>) =
            int (length (fs_pending (st\<lparr>fs_pending := removeAll d (fs_pending st),
               fs_events := fs_events st @ [Dup_freed d], rq_refct := rq_refct st - 1\<rparr>)))"
      proof -
        from pos have "int (length (fs_pending st) - 1) = int (length (fs_pending st)) - 1"
          by linarith
        with len inv(1) show ?thesis by simp
      qed
    next
      show "distinct (fs_pending (st\<lparr>fs_pending := removeAll d (fs_pending st),
               fs_events := fs_events st @ [Dup_freed d], rq_refct := rq_refct st - 1\<rparr>))"
        using inv(2) by (simp add: distinct_removeAll)
    next
      fix x assume "x \<in> set (fs_pending (st\<lparr>fs_pending := removeAll d (fs_pending st),
               fs_events := fs_events st @ [Dup_freed d], rq_refct := rq_refct st - 1\<rparr>))"
      then have "x \<in> set (fs_pending st)" by simp
      then show "x < fs_ndups (st\<lparr>fs_pending := removeAll d (fs_pending st),
               fs_events := fs_events st @ [Dup_freed d], rq_refct := rq_refct st - 1\<rparr>)"
        using inv(3) [of x] by simp
    next
      fix x assume "x < fs_ndups (st\<lparr>fs_pending := removeAll d (fs_pending st),
               fs_events := fs_events st @ [Dup_freed d], rq_refct := rq_refct st - 1\<rparr>)"
      then have "x < fs_ndups st" by simp
      then have "x \<in> set (fs_pending st) \<or> Dup_freed x \<in> set (fs_events st)"
        by (rule inv(4))
      then show "x \<in> set (fs_pending (st\<lparr>fs_pending := removeAll d (fs_pending st),
               fs_events := fs_events st @ [Dup_freed d], rq_refct := rq_refct st - 1\<rparr>)) \<or>
          Dup_freed x \<in> set (fs_events (st\<lparr>fs_pending := removeAll d (fs_pending st),
               fs_events := fs_events st @ [Dup_freed d], rq_refct := rq_refct st - 1\<rparr>))"
        by (cases "x = d") auto
    next
      fix ev assume "ev \<in> set (fs_events (st\<lparr>fs_pending := removeAll d (fs_pending st),
               fs_events := fs_events st @ [Dup_freed d], rq_refct := rq_refct st - 1\<rparr>))"
      then have "ev \<in> set (fs_events st) \<or> ev = Dup_freed d" by auto
      then have "ev = Reply_parent \<or>
          (\<exists>d' off. d' < fs_ndups st \<and> (ev = Dup_created d' off \<or> ev = Dup_freed d'))"
        using inv(5) [of ev] dlt by blast
      then show "ev = Reply_parent \<or>
          (\<exists>d' off. d' < fs_ndups (st\<lparr>fs_pending := removeAll d (fs_pending st),
               fs_events := fs_events st @ [Dup_freed d], rq_refct := rq_refct st - 1\<rparr>) \<and>
            (ev = Dup_created d' off \<or> ev = Dup_freed d'))"
        by simp
    next
      assume "fs_pending (st\<lparr>fs_pending := removeAll d (fs_pending st),
               fs_events := fs_events st @ [Dup_freed d], rq_refct := rq_refct st - 1\<rparr>) = []"
      with n show "\<exists>pre. fs_events (st\<lparr>fs_pending := removeAll d (fs_pending st),
               fs_events := fs_events st @ [Dup_freed d], rq_refct := rq_refct st - 1\<rparr>) =
              pre @ [Reply_parent] \<and> Reply_parent \<notin> set pre"
        by simp
    next
      show "Reply_parent \<notin> set (fs_events (st\<lparr>fs_pending := removeAll d (fs_pending st),
               fs_events := fs_events st @ [Dup_freed d], rq_refct := rq_refct st - 1\<rparr>))"
        using norep by simp
    qed
  qed
qed

lemma fold_complete_dup_open_inv:
  "open_inv st \<Longrightarrow> open_inv (foldl complete_dup st ds)"
  by (induction ds arbitrary: st) (simp_all add: complete_dup_open_inv)

lemma complete_dup_pending:
  "fs_pending (complete_dup st d) = removeAll d (fs_pending st)"
  by (simp add: complete_dup_def free_br_def reply_send_def Let_def)

lemma fold_complete_dup_pending:
  "fs_pending (foldl complete_dup st ds) = filter (\<lambda>d. d \<notin> set ds) (fs_pending st)"
proof (induction ds arbitrary: st)
  case Nil
  then show ?case by simp
next
  case (Cons d ds)
  have "filter (\<lambda>x. x \<notin> set ds) (removeAll d (fs_pending st)) =
        filter (\<lambda>x. x \<notin> set (d # ds)) (fs_pending st)"
    unfolding removeAll_filter_not_eq filter_filter by (rule filter_cong) auto
  then show ?case by (simp add: Cons.IH complete_dup_pending)
qed

lemma fold_complete_dup_ndups:
  "fs_ndups (foldl complete_dup st ds) = fs_ndups st"
proof (induction ds arbitrary: st)
  case Nil
  then show ?case by simp
next
  case (Cons d ds)
  have "fs_ndups (complete_dup st d) = fs_ndups st"
    by (simp add: complete_dup_def free_br_def reply_send_def Let_def)
  then show ?case by (simp add: Cons.IH)
qed

lemma open_inv_reply_count:
  assumes "open_inv st"
  shows "count_list (fs_events st) Reply_parent = (if fs_pending st = [] then 1 else 0)"
proof (cases "fs_pending st = []")
  case True
  then obtain pre where "fs_events st = pre @ [Reply_parent]" and "Reply_parent \<notin> set pre"
    using open_invD(6) [OF assms] by blast
  with True show ?thesis by (simp add: count_list_0_iff)
next
  case False
  then have "Reply_parent \<notin> set (fs_events st)"
    using open_invD(7) [OF assms] by blast
  with False show ?thesis by (simp add: count_list_0_iff)
qed

lemma open_inv_no_reject:
  assumes "open_inv st"
  shows "Reject_parent c \<notin> set (fs_events st)"
  using open_invD(5) [OF assms, of "Reject_parent c"] by auto

lemma open_inv_reply_last:
  assumes "open_inv st" and "fs_pending st = []"
  shows "\<exists>pre. fs_events st = pre @ [Reply_parent] \<and> (\<forall>d < fs_ndups st. Dup_freed d \<in> set pre)"
proof -
  obtain pre where p: "fs_events st = pre @ [Reply_parent]"
    using open_invD(6) [OF assms] by blast
  have "\<forall>d < fs_ndups st. Dup_freed d \<in> set pre"
  proof (intro allI impI)
    fix d assume "d < fs_ndups st"
    then have "Dup_freed d \<in> set (fs_events st)"
      using open_invD(4) [OF assms(1), of d] assms(2) by simp
    with p show "Dup_freed d \<in> set pre" by simp
  qed
  with p show ?thesis by blast
qed

lemma open_inv_no_dup:
  assumes "open_inv st" and "fs_ndups st = 0"
  shows "fs_events st = [Reply_parent]"
proof -
  have "fs_pending st = []"
  proof (cases "fs_pending st")
    case Nil
    then show ?thesis .
  next
    case (Cons d ds)
    then have "d < fs_ndups st" using open_invD(3) [OF assms(1), of d] by simp
    with assms(2) show ?thesis by simp
  qed
  then obtain pre where p: "fs_events st = pre @ [Reply_parent]" and
    n: "Reply_parent \<notin> set pre"
    using open_invD(6) [OF assms(1)] by blast
  have "pre = []"
  proof (cases pre)
    case Nil
    then show ?thesis .
  next
    case (Cons e es)
    then have "e \<in> set (fs_events st)" using p by simp
    then have "e = Reply_parent" using open_invD(5) [OF assms(1), of e] assms(2) by simp
    with n Cons show ?thesis by simp
  qed
  with p show ?thesis by simp
qed

text \<open>
  The discipline at work.  For every Signal-Job request that reaches the fan-out
  loop of the whole-array or the subjob-range shape, with no failure of
  \<^verbatim>\<open>set_nodes\<close>: \<^verbatim>\<open>req_signaljob\<close> returns; on return the reference count of the
  original request is the number of duplicates still out at an execution host; if
  no duplicate was made, the decrement after the loop has sent the reply and
  nothing else has happened.  After any sequence \<open>ds\<close> of completions of relayed
  duplicates, in any order, the aggregated reply has been sent exactly once if
  every outstanding duplicate has completed and not at all otherwise, no rejection
  has been sent, and once it is sent the reply is the last thing that happened,
  after the freeing of every duplicate that was made.
\<close>

lemma fan_out_one_reply_when_set_nodes_succeeds:
  assumes "reaches_fan_out inp" and "set_nodes_succeeds inp"
  shows "\<exists>st. req_signaljob inp fresh_request = Some st \<and>
           rq_refct st = int (length (fs_pending st)) \<and>
           (fs_ndups st = 0 \<longrightarrow> fs_events st = [Reply_parent]) \<and>
           (\<forall>ds. count_list (fs_events (foldl complete_dup st ds)) Reply_parent =
                   (if set (fs_pending st) \<subseteq> set ds then 1 else 0) \<and>
                 (\<forall>c. Reject_parent c \<notin> set (fs_events (foldl complete_dup st ds))) \<and>
                 (set (fs_pending st) \<subseteq> set ds \<longrightarrow>
                    (\<exists>pre. fs_events (foldl complete_dup st ds) = pre @ [Reply_parent] \<and>
                           (\<forall>d < fs_ndups st. Dup_freed d \<in> set pre))))"
proof -
  from req_signaljob_open_inv [OF assms] obtain st where
    r: "req_signaljob inp fresh_request = Some st" and o: "open_inv st"
    by blast
  have a: "rq_refct st = int (length (fs_pending st))"
    using open_invD(1) [OF o] .
  have b: "fs_ndups st = 0 \<longrightarrow> fs_events st = [Reply_parent]"
    using open_inv_no_dup [OF o] by blast
  have c: "\<forall>ds. count_list (fs_events (foldl complete_dup st ds)) Reply_parent =
                   (if set (fs_pending st) \<subseteq> set ds then 1 else 0) \<and>
                 (\<forall>c. Reject_parent c \<notin> set (fs_events (foldl complete_dup st ds))) \<and>
                 (set (fs_pending st) \<subseteq> set ds \<longrightarrow>
                    (\<exists>pre. fs_events (foldl complete_dup st ds) = pre @ [Reply_parent] \<and>
                           (\<forall>d < fs_ndups st. Dup_freed d \<in> set pre)))"
  proof (intro allI)
    fix ds
    let ?st = "foldl complete_dup st ds"
    have o': "open_inv ?st" using o by (rule fold_complete_dup_open_inv)
    have pe: "fs_pending ?st = [] \<longleftrightarrow> set (fs_pending st) \<subseteq> set ds"
      by (simp add: fold_complete_dup_pending filter_empty_conv subset_eq)
    have c1: "count_list (fs_events ?st) Reply_parent =
                (if set (fs_pending st) \<subseteq> set ds then 1 else 0)"
      using open_inv_reply_count [OF o'] pe by simp
    have c2: "\<forall>c. Reject_parent c \<notin> set (fs_events ?st)"
      using open_inv_no_reject [OF o'] by blast
    have c3: "set (fs_pending st) \<subseteq> set ds \<longrightarrow>
                (\<exists>pre. fs_events ?st = pre @ [Reply_parent] \<and>
                       (\<forall>d < fs_ndups st. Dup_freed d \<in> set pre))"
      using open_inv_reply_last [OF o'] pe fold_complete_dup_ndups [of st ds] by simp
    from c1 c2 c3 show "count_list (fs_events ?st) Reply_parent =
                   (if set (fs_pending st) \<subseteq> set ds then 1 else 0) \<and>
                 (\<forall>c. Reject_parent c \<notin> set (fs_events ?st)) \<and>
                 (set (fs_pending st) \<subseteq> set ds \<longrightarrow>
                    (\<exists>pre. fs_events ?st = pre @ [Reply_parent] \<and>
                           (\<forall>d < fs_ndups st. Dup_freed d \<in> set pre)))"
      by (intro conjI)
  qed
  show ?thesis
    by (rule exI [of _ st], intro conjI) (rule r, rule a, rule b, rule c)
qed

text \<open>
  The two inputs of the next theorems reach the fan-out loop, and on each of them
  \<^verbatim>\<open>set_nodes\<close> fails for the first duplicate.
\<close>

lemma admin_resume_inputs_reach_fan_out:
  "reaches_fan_out
     \<lparr>si_parent_found = True, si_jt = IS_ARRAY_ArrayJob,
      si_preq = \<lparr>rq_signame = SIG_ADMIN_RESUME, rq_fromsvr = 0, rq_extra = None\<rparr>,
      si_oper_or_mgr = True, si_begun = True,
      si_table =
        [\<lparr>trk_state = JOB_STATE_LTR_RUNNING, trk_psubjob = Some
           \<lparr>ji_jobid = ''7[0].svr'', ji_state = JOB_STATE_LTR_RUNNING,
             ji_substate = JOB_SUBSTATE_SUSPEND, svflg_Suspend = True,
             svflg_AdmSuspd = True, exec_vnode = Some ''(n0:ncpus=1)'',
             exec_vnode_deallocated = Some ''(m0:ncpus=1)''\<rparr>\<rparr>],
      si_single_offset = 0, si_range = None, si_to_offset = (\<lambda>i. i),
      si_alloc_ok = (\<lambda>d. True),
      si_envs = (\<lambda>d. \<lparr>assign_hosts_rc = 0,
                         set_nodes_rc = (if d = 0 then PBSE_SYSTEM else 0),
                         sched_found = True,
                         relay_to_mom_rc = 0\<rparr>)\<rparr> \<and>
   reaches_fan_out
     \<lparr>si_parent_found = True, si_jt = IS_ARRAY_ArrayJob,
      si_preq = \<lparr>rq_signame = SIG_ADMIN_RESUME, rq_fromsvr = 0, rq_extra = None\<rparr>,
      si_oper_or_mgr = True, si_begun = True,
      si_table =
        [\<lparr>trk_state = JOB_STATE_LTR_RUNNING, trk_psubjob = Some
           \<lparr>ji_jobid = ''7[0].svr'', ji_state = JOB_STATE_LTR_RUNNING,
             ji_substate = JOB_SUBSTATE_SUSPEND, svflg_Suspend = True,
             svflg_AdmSuspd = True, exec_vnode = Some ''(n0:ncpus=1)'',
             exec_vnode_deallocated = Some ''(m0:ncpus=1)''\<rparr>\<rparr>,
         \<lparr>trk_state = JOB_STATE_LTR_RUNNING, trk_psubjob = Some
           \<lparr>ji_jobid = ''7[1].svr'', ji_state = JOB_STATE_LTR_RUNNING,
             ji_substate = JOB_SUBSTATE_SUSPEND, svflg_Suspend = True,
             svflg_AdmSuspd = True, exec_vnode = Some ''(n1:ncpus=1)'',
             exec_vnode_deallocated = Some ''(m1:ncpus=1)''\<rparr>\<rparr>],
      si_single_offset = 0, si_range = None, si_to_offset = (\<lambda>i. i),
      si_alloc_ok = (\<lambda>d. True),
      si_envs = (\<lambda>d. \<lparr>assign_hosts_rc = 0,
                         set_nodes_rc = (if d = 0 then PBSE_SYSTEM else 0),
                         sched_found = True,
                         relay_to_mom_rc = (if d = 0 then PBSE_SYSTEM else 0)\<rparr>)\<rparr>"
  by (simp add: reaches_fan_out_def)

text \<open>
  C1.  An array-job Signal-Job request that fans out is to be answered by exactly
  one aggregated reply, sent only after every duplicate has completed.  The
  common signal routine breaks the reference counting this rests on: when
  \<^verbatim>\<open>set_nodes\<close> fails it rejects the request, which for a duplicate frees it and
  gives its reference back to the original, and it does not return, so the
  duplicate is relayed all the same, and rejected a second time if the relay
  fails.  A manager sends the admin-resume signal to an array job that has begun;
  every running subjob is suspended and admin-suspended and has a value of
  \<^verbatim>\<open>exec_vnode_deallocated\<close>, and \<^verbatim>\<open>set_nodes\<close> fails for the first duplicate.  With
  one running subjob whose relay succeeds, the decrement after the loop brings
  the count to zero: when \<^verbatim>\<open>req_signaljob\<close> returns the aggregated reply has been
  sent and the relay of the only duplicate is still outstanding.  With two running
  subjobs and a relay that fails for the first, the first duplicate is freed twice
  and the reply is sent before the second duplicate is made; the decrement after
  the loop sends a second reply, the relay of the second duplicate being
  outstanding.
\<close>

theorem fan_out_reply_sent_while_relay_outstanding:
  "req_signaljob
     \<lparr>si_parent_found = True, si_jt = IS_ARRAY_ArrayJob,
      si_preq = \<lparr>rq_signame = SIG_ADMIN_RESUME, rq_fromsvr = 0, rq_extra = None\<rparr>,
      si_oper_or_mgr = True, si_begun = True,
      si_table =
        [\<lparr>trk_state = JOB_STATE_LTR_RUNNING, trk_psubjob = Some
           \<lparr>ji_jobid = ''7[0].svr'', ji_state = JOB_STATE_LTR_RUNNING,
             ji_substate = JOB_SUBSTATE_SUSPEND, svflg_Suspend = True,
             svflg_AdmSuspd = True, exec_vnode = Some ''(n0:ncpus=1)'',
             exec_vnode_deallocated = Some ''(m0:ncpus=1)''\<rparr>\<rparr>],
      si_single_offset = 0, si_range = None, si_to_offset = (\<lambda>i. i),
      si_alloc_ok = (\<lambda>d. True),
      si_envs = (\<lambda>d. \<lparr>assign_hosts_rc = 0,
                         set_nodes_rc = (if d = 0 then PBSE_SYSTEM else 0),
                         sched_found = True,
                         relay_to_mom_rc = 0\<rparr>)\<rparr>
     fresh_request =
     Some \<lparr>rq_refct = 0, fs_pending = [0], fs_ndups = 1,
           fs_events = [Dup_created 0 0, Dup_freed 0, Reply_parent]\<rparr> \<and>
   req_signaljob
     \<lparr>si_parent_found = True, si_jt = IS_ARRAY_ArrayJob,
      si_preq = \<lparr>rq_signame = SIG_ADMIN_RESUME, rq_fromsvr = 0, rq_extra = None\<rparr>,
      si_oper_or_mgr = True, si_begun = True,
      si_table =
        [\<lparr>trk_state = JOB_STATE_LTR_RUNNING, trk_psubjob = Some
           \<lparr>ji_jobid = ''7[0].svr'', ji_state = JOB_STATE_LTR_RUNNING,
             ji_substate = JOB_SUBSTATE_SUSPEND, svflg_Suspend = True,
             svflg_AdmSuspd = True, exec_vnode = Some ''(n0:ncpus=1)'',
             exec_vnode_deallocated = Some ''(m0:ncpus=1)''\<rparr>\<rparr>,
         \<lparr>trk_state = JOB_STATE_LTR_RUNNING, trk_psubjob = Some
           \<lparr>ji_jobid = ''7[1].svr'', ji_state = JOB_STATE_LTR_RUNNING,
             ji_substate = JOB_SUBSTATE_SUSPEND, svflg_Suspend = True,
             svflg_AdmSuspd = True, exec_vnode = Some ''(n1:ncpus=1)'',
             exec_vnode_deallocated = Some ''(m1:ncpus=1)''\<rparr>\<rparr>],
      si_single_offset = 0, si_range = None, si_to_offset = (\<lambda>i. i),
      si_alloc_ok = (\<lambda>d. True),
      si_envs = (\<lambda>d. \<lparr>assign_hosts_rc = 0,
                         set_nodes_rc = (if d = 0 then PBSE_SYSTEM else 0),
                         sched_found = True,
                         relay_to_mom_rc = (if d = 0 then PBSE_SYSTEM else 0)\<rparr>)\<rparr>
     fresh_request =
     Some \<lparr>rq_refct = 0, fs_pending = [1], fs_ndups = 2,
           fs_events = [Dup_created 0 0, Dup_freed 0, Dup_freed 0, Reply_parent,
                        Dup_created 1 1, Reply_parent]\<rparr>"
  by code_simp

end
